theory Spec2Isabelle
  imports Main "HOL-Library.Monad_Syntax" "HOL-Library.Signed_Division" "HOL-Library.Sublist"
begin

section \<open>Go values\<close>

text \<open>
  A Go \<^verbatim>\<open>string\<close> is a sequence of bytes: \<^typ>\<open>string\<close>. A Go \<^verbatim>\<open>int\<close> is
  \<^typ>\<open>int\<close> (no index of this program comes near 64 bits). A function that returns
  \<^verbatim>\<open>(v, error)\<close> returns the pair \<open>(v, err)\<close> with \<open>err = None\<close> for \<^verbatim>\<open>nil\<close>,
  as the Go code does. A run-time panic (index out of range) is the result \<open>None\<close> of
  the whole call, so a function that can panic returns an \<open>option\<close>.

  The board cells and coordinates of this program are ASCII. \<open>ToUpper\<close> and
  \<open>ToLower\<close> change the ASCII letters and leave every other byte alone, and
  \<open>Replace\<close> counts bytes; Go re-encodes bytes above 127 there.
\<close>

datatype error =
    InvalidCoordinate   \<comment> \<open>\<^verbatim>\<open>bad column '%s'\<close>, \<^verbatim>\<open>bad row '%s'\<close>\<close>
  | NoPieceAtSource     \<comment> \<open>\<^verbatim>\<open>no piece at %s\<close>\<close>
  | InvalidNotation     \<comment> \<open>\<^verbatim>\<open>invalid notation: %s\<close>\<close>
  | AmbiguousMove       \<comment> \<open>\<^verbatim>\<open>ambiguous move\<close>\<close>
  | NoMatchingMove      \<comment> \<open>\<^verbatim>\<open>no matching move\<close>\<close>
  | NoDisambiguation    \<comment> \<open>\<^verbatim>\<open>can't find a valid move described by %s->%s\<close>\<close>

type_synonym Board = string

abbreviation ord :: "char \<Rightarrow> int" where
  "ord c \<equiv> of_char c"

text \<open>\<^verbatim>\<open>s[i]\<close>: the byte at index \<open>i\<close>, a panic out of range.\<close>

definition byteAt :: "string \<Rightarrow> int \<Rightarrow> char option" where
  "byteAt s i = (if 0 \<le> i \<and> i < int (length s) then Some (s ! nat i) else None)"

definition toUpperByte :: "char \<Rightarrow> char" where
  "toUpperByte c = (if 97 \<le> ord c \<and> ord c \<le> 122 then char_of (ord c - 32) else c)"

definition toLowerByte :: "char \<Rightarrow> char" where
  "toLowerByte c = (if 65 \<le> ord c \<and> ord c \<le> 90 then char_of (ord c + 32) else c)"

definition ToUpper :: "string \<Rightarrow> string" where
  "ToUpper s = map toUpperByte s"

definition ToLower :: "string \<Rightarrow> string" where
  "ToLower s = map toLowerByte s"

section \<open>The board\<close>

definition StartingBoard :: Board where
  "StartingBoard =
     [CHR 0x0A] @ ''RNBQKBNR'' @ [CHR 0x0A] @ ''PPPPPPPP'' @ [CHR 0x0A] @
     ''________'' @ [CHR 0x0A] @ ''________'' @ [CHR 0x0A] @
     ''________'' @ [CHR 0x0A] @ ''________'' @ [CHR 0x0A] @
     ''pppppppp'' @ [CHR 0x0A] @ ''rnbqkbnr'' @ [CHR 0x0A]"

text \<open>\<^verbatim>\<open>unicode.IsSpace\<close> on the bytes below 128.\<close>

definition IsSpace :: "char \<Rightarrow> bool" where
  "IsSpace c = (ord c \<in> {9, 10, 11, 12, 13, 32})"

definition Normalize :: "Board \<Rightarrow> Board" where
  "Normalize self = filter (\<lambda>r. \<not> IsSpace r) self"

text \<open>\<^verbatim>\<open>Position\<close>: the index of a coordinate; \<open>(-1, err)\<close> on a bad column or row.\<close>

definition Position :: "Board \<Rightarrow> string \<Rightarrow> (int \<times> error option) option" where
  "Position board pos0 = do {
     let pos = ToUpper pos0;
     c0 \<leftarrow> byteAt pos 0;
     if ord c0 < ord CHR ''A'' \<or> ord c0 > ord CHR ''H'' then Some (-1, Some InvalidCoordinate)
     else do {
       c1 \<leftarrow> byteAt pos 1;
       if ord c1 < ord CHR ''1'' \<or> ord c1 > ord CHR ''8'' then Some (-1, Some InvalidCoordinate)
       else do {
         let r = ord c1 - 48;
         let p = (8 - r) * 8;
         let p = p + (ord c0 - ord CHR ''A'');
         Some (p, None)
       }
     }
   }"

definition PieceAt :: "Board \<Rightarrow> string \<Rightarrow> (string \<times> error option) option" where
  "PieceAt board pos = do {
     (p, err) \<leftarrow> Position board pos;
     if err = None then do { c \<leftarrow> byteAt board p; Some ([c], None) }
     else Some ('''', err)
   }"

definition Replace :: "Board \<Rightarrow> char \<Rightarrow> int \<Rightarrow> Board option" where
  "Replace board r i =
     (if 0 \<le> i \<and> i < int (length board) then Some (board[nat i := r]) else None)"

text \<open>
  \<^verbatim>\<open>Move\<close>: castling of a king from its home square, promotion, or a plain
  relocation. Where the promotion test reads \<^verbatim>\<open>stops[1]\<close>, \<open>Position\<close> has accepted
  \<open>stops\<close>, so the byte is there.
\<close>

definition Move :: "Board \<Rightarrow> string \<Rightarrow> string \<Rightarrow> (Board \<times> error option) option" where
  "Move board starts0 stops0 = do {
     let starts = ToUpper starts0;
     let stops = ToUpper stops0;
     (start, err) \<leftarrow> Position board starts;
     if err \<noteq> None then Some (board, err)
     else do {
       (stop, err) \<leftarrow> Position board stops;
       if err \<noteq> None then Some (board, err)
       else do {
         piece \<leftarrow> byteAt board start;
         if piece = CHR ''_'' then Some (board, Some NoPieceAtSource)
         else if piece = CHR ''k'' \<and> starts = ''E1'' \<and> (stops = ''G1'' \<or> stops = ''C1'') then do {
           (rs, re) \<leftarrow>
             (if ToUpper stops = ''G1''
              then do { (rs, _) \<leftarrow> Position board ''H1''; (re, _) \<leftarrow> Position board ''F1''; Some (rs, re) }
              else do { (rs, _) \<leftarrow> Position board ''A1''; (re, _) \<leftarrow> Position board ''D1''; Some (rs, re) });
           b1 \<leftarrow> Replace board CHR ''k'' stop;
           b2 \<leftarrow> Replace b1 CHR ''r'' re;
           b3 \<leftarrow> Replace b2 CHR ''_'' start;
           b4 \<leftarrow> Replace b3 CHR ''_'' rs;
           Some (b4, None)
         }
         else if piece = CHR ''K'' \<and> starts = ''E8'' \<and> (stops = ''G8'' \<or> stops = ''C8'') then do {
           (rs, re) \<leftarrow>
             (if ToUpper stops = ''G8''
              then do { (rs, _) \<leftarrow> Position board ''H8''; (re, _) \<leftarrow> Position board ''F8''; Some (rs, re) }
              else do { (rs, _) \<leftarrow> Position board ''A8''; (re, _) \<leftarrow> Position board ''D8''; Some (rs, re) });
           b1 \<leftarrow> Replace board CHR ''K'' stop;
           b2 \<leftarrow> Replace b1 CHR ''R'' re;
           b3 \<leftarrow> Replace b2 CHR ''_'' start;
           b4 \<leftarrow> Replace b3 CHR ''_'' rs;
           Some (b4, None)
         }
         else do {
           s1 \<leftarrow> byteAt stops 1;
           let piece = (if piece = CHR ''p'' \<and> s1 = CHR ''8'' then CHR ''q''
                        else if piece = CHR ''P'' \<and> s1 = CHR ''1'' then CHR ''Q'' else piece);
           b1 \<leftarrow> Replace board piece stop;
           b2 \<leftarrow> Replace b1 CHR ''_'' start;
           Some (b2, None)
         }
       }
     }
   }"

section \<open>Move generation\<close>

datatype coord = Coord (row: int) (col: int)

text \<open>Go's \<^verbatim>\<open>/\<close> and \<^verbatim>\<open>%\<close> truncate towards zero: \<open>sdiv\<close> and \<open>smod\<close>.\<close>

definition coordsFromIndex :: "int \<Rightarrow> int \<times> int" where
  "coordsFromIndex pos = (8 - (pos sdiv 8), pos smod 8)"

definition indexFromCoords :: "int \<Rightarrow> int \<Rightarrow> int" where
  "indexFromCoords r c = ((8 - r) * 8) + c"

text \<open>The closure \<^verbatim>\<open>empty\<close> of \<^verbatim>\<open>validMoves\<close>.\<close>

definition emptyAt :: "Board \<Rightarrow> int \<Rightarrow> int \<Rightarrow> bool option" where
  "emptyAt board r c = do {
     o' \<leftarrow> byteAt board (indexFromCoords r c);
     Some (o' = CHR ''_'')
   }"

definition opponentAt :: "Board \<Rightarrow> char \<Rightarrow> int \<Rightarrow> int \<Rightarrow> bool option" where
  "opponentAt board piece r c = do {
     o' \<leftarrow> byteAt board (indexFromCoords r c);
     e \<leftarrow> emptyAt board r c;
     if e then Some False
     else if ord piece < ord CHR ''Z'' then Some (ord o' \<ge> ord CHR ''a'')
     else Some (ord o' < ord CHR ''Z'')
   }"

text \<open>\<^verbatim>\<open>cruise\<close>: whether the ray goes on, and the destinations so far.\<close>

definition cruise :: "Board \<Rightarrow> char \<Rightarrow> coord list \<Rightarrow> int \<Rightarrow> int \<Rightarrow> (bool \<times> coord list) option" where
  "cruise board piece valid r c = do {
     e \<leftarrow> emptyAt board r c;
     if e then Some (True, valid @ [Coord r c])
     else do {
       opp \<leftarrow> opponentAt board piece r c;
       Some (False, if opp then valid @ [Coord r c] else valid)
     }
   }"

text \<open>
  The guard of a ray loop that steps by \<open>(dr, dc)\<close>: \<^verbatim>\<open>tr <= 8\<close> going up, \<^verbatim>\<open>tr >= 1\<close>
  going down, \<^verbatim>\<open>tc <= 7\<close> going right, \<^verbatim>\<open>tc >= 0\<close> going left; a coordinate that
  does not move is not tested.
\<close>

definition rayGuard :: "int \<Rightarrow> int \<Rightarrow> int \<Rightarrow> int \<Rightarrow> bool" where
  "rayGuard dr dc tr tc =
     ((if dr = 1 then tr \<le> 8 else if dr = -1 then tr \<ge> 1 else dr = 0 \<and> dc \<noteq> 0) \<and>
      (if dc = 1 then tc \<le> 7 else if dc = -1 then tc \<ge> 0 else dc = 0))"

text \<open>\<^verbatim>\<open>for tr, tc := ...; guard && cruise(tr, tc); tr, tc = tr+dr, tc+dc {}\<close>\<close>

function cruiseLoop ::
  "Board \<Rightarrow> char \<Rightarrow> int \<Rightarrow> int \<Rightarrow> int \<Rightarrow> int \<Rightarrow> coord list \<Rightarrow> coord list option" where
  "cruiseLoop board piece dr dc tr tc valid =
     (if rayGuard dr dc tr tc then
        (case cruise board piece valid tr tc of
           None \<Rightarrow> None
         | Some (more, valid') \<Rightarrow>
             if more then cruiseLoop board piece dr dc (tr + dr) (tc + dc) valid' else Some valid')
      else Some valid)"
  by pat_completeness auto
termination
  by (relation "measure (\<lambda>(board, piece, dr, dc, tr, tc, valid).
        nat ((if dr = 1 then 9 - tr else if dr = -1 then tr else 0) +
             (if dc = 1 then 8 - tc else if dc = -1 then tc + 1 else 0)))")
     (auto simp: rayGuard_def split: if_splits)

text \<open>\<^verbatim>\<open>if cond { yep(r, c) }\<close>, where evaluating \<open>cond\<close> may panic.\<close>

definition yepIf :: "bool option \<Rightarrow> coord \<Rightarrow> coord list \<Rightarrow> coord list option" where
  "yepIf cond rc valid = do { b \<leftarrow> cond; Some (if b then valid @ [rc] else valid) }"

text \<open>\<^verbatim>\<open>p && q\<close> and \<^verbatim>\<open>p || q\<close>, evaluated left to right.\<close>

definition andThen :: "bool \<Rightarrow> bool option \<Rightarrow> bool option" where
  "andThen p q = (if p then q else Some False)"

definition orElse :: "bool option \<Rightarrow> bool option \<Rightarrow> bool option" where
  "orElse p q = do { a \<leftarrow> p; if a then Some True else q }"

definition cellIs :: "Board \<Rightarrow> int \<Rightarrow> int \<Rightarrow> char \<Rightarrow> bool option" where
  "cellIs board r c x = do { o' \<leftarrow> byteAt board (indexFromCoords r c); Some (o' = x) }"

definition validMoves_P :: "Board \<Rightarrow> char \<Rightarrow> int \<Rightarrow> int \<Rightarrow> coord list option" where
  "validMoves_P board piece orow ocol =
     (if orow \<noteq> 1 then do {
        v \<leftarrow> yepIf (emptyAt board (orow - 1) ocol) (Coord (orow - 1) ocol) [];
        v \<leftarrow> yepIf (andThen (ocol \<noteq> 0) (opponentAt board piece (orow - 1) (ocol - 1)))
               (Coord (orow - 1) (ocol - 1)) v;
        v \<leftarrow> yepIf (andThen (ocol \<noteq> 7) (opponentAt board piece (orow - 1) (ocol + 1)))
               (Coord (orow - 1) (ocol + 1)) v;
        v \<leftarrow> yepIf (andThen (orow = 7) (emptyAt board (orow - 2) ocol)) (Coord (orow - 2) ocol) v;
        v \<leftarrow> yepIf (andThen (orow = 4 \<and> ocol \<noteq> 0) (cellIs board orow (ocol - 1) CHR ''p''))
               (Coord (orow - 1) (ocol - 1)) v;
        yepIf (andThen (orow = 4 \<and> ocol \<noteq> 7) (cellIs board orow (ocol + 1) CHR ''p''))
               (Coord (orow - 1) (ocol + 1)) v
      } else Some [])"

definition validMoves_p :: "Board \<Rightarrow> char \<Rightarrow> int \<Rightarrow> int \<Rightarrow> coord list option" where
  "validMoves_p board piece orow ocol =
     (if orow \<noteq> 8 then do {
        v \<leftarrow> yepIf (emptyAt board (orow + 1) ocol) (Coord (orow + 1) ocol) [];
        v \<leftarrow> yepIf (andThen (ocol \<noteq> 0) (opponentAt board piece (orow + 1) (ocol - 1)))
               (Coord (orow + 1) (ocol - 1)) v;
        v \<leftarrow> yepIf (andThen (ocol \<noteq> 7) (opponentAt board piece (orow + 1) (ocol + 1)))
               (Coord (orow + 1) (ocol + 1)) v;
        v \<leftarrow> yepIf (andThen (orow = 2) (emptyAt board (orow + 2) ocol)) (Coord (orow + 2) ocol) v;
        v \<leftarrow> yepIf (andThen (orow = 5 \<and> ocol \<noteq> 0) (cellIs board orow (ocol - 1) CHR ''P''))
               (Coord (orow + 1) (ocol - 1)) v;
        yepIf (andThen (orow = 5 \<and> ocol \<noteq> 7) (cellIs board orow (ocol + 1) CHR ''P''))
               (Coord (orow + 1) (ocol + 1)) v
      } else Some [])"

definition validMoves_R :: "Board \<Rightarrow> char \<Rightarrow> int \<Rightarrow> int \<Rightarrow> coord list \<Rightarrow> coord list option" where
  "validMoves_R board piece orow ocol valid = do {
     v \<leftarrow> cruiseLoop board piece 1 0 (orow + 1) ocol valid;
     v \<leftarrow> cruiseLoop board piece (-1) 0 (orow - 1) ocol v;
     v \<leftarrow> cruiseLoop board piece 0 1 orow (ocol + 1) v;
     cruiseLoop board piece 0 (-1) orow (ocol - 1) v
   }"

definition validMoves_B :: "Board \<Rightarrow> char \<Rightarrow> int \<Rightarrow> int \<Rightarrow> coord list \<Rightarrow> coord list option" where
  "validMoves_B board piece orow ocol valid = do {
     v \<leftarrow> cruiseLoop board piece 1 1 (orow + 1) (ocol + 1) valid;
     v \<leftarrow> cruiseLoop board piece 1 (-1) (orow + 1) (ocol - 1) v;
     v \<leftarrow> cruiseLoop board piece (-1) 1 (orow - 1) (ocol + 1) v;
     cruiseLoop board piece (-1) (-1) (orow - 1) (ocol - 1) v
   }"

text \<open>\<^verbatim>\<open>if (bounds) && (empty(r, c) || opponentAt(r, c)) { yep(r, c) }\<close>\<close>

definition yepIfFree :: "Board \<Rightarrow> char \<Rightarrow> bool \<Rightarrow> int \<Rightarrow> int \<Rightarrow> coord list \<Rightarrow> coord list option" where
  "yepIfFree board piece bounds r c valid =
     yepIf (andThen bounds (orElse (emptyAt board r c) (opponentAt board piece r c))) (Coord r c) valid"

definition validMoves_N :: "Board \<Rightarrow> char \<Rightarrow> int \<Rightarrow> int \<Rightarrow> coord list option" where
  "validMoves_N board piece tr tc = do {
     v \<leftarrow> yepIfFree board piece (tr + 2 \<le> 8 \<and> tc + 1 \<le> 7) (tr + 2) (tc + 1) [];
     v \<leftarrow> yepIfFree board piece (tr + 2 \<le> 8 \<and> tc - 1 \<ge> 0) (tr + 2) (tc - 1) v;
     v \<leftarrow> yepIfFree board piece (tr - 2 \<ge> 1 \<and> tc + 1 \<le> 7) (tr - 2) (tc + 1) v;
     v \<leftarrow> yepIfFree board piece (tr - 2 \<ge> 1 \<and> tc - 1 \<ge> 0) (tr - 2) (tc - 1) v;
     v \<leftarrow> yepIfFree board piece (tr + 1 \<le> 8 \<and> tc + 2 \<le> 7) (tr + 1) (tc + 2) v;
     v \<leftarrow> yepIfFree board piece (tr + 1 \<le> 8 \<and> tc - 2 \<ge> 0) (tr + 1) (tc - 2) v;
     v \<leftarrow> yepIfFree board piece (tr - 1 \<ge> 1 \<and> tc + 2 \<le> 7) (tr - 1) (tc + 2) v;
     yepIfFree board piece (tr - 1 \<ge> 1 \<and> tc - 2 \<ge> 0) (tr - 1) (tc - 2) v
   }"

definition validMoves_K :: "Board \<Rightarrow> char \<Rightarrow> int \<Rightarrow> int \<Rightarrow> coord list option" where
  "validMoves_K board piece tr tc = do {
     v \<leftarrow> yepIfFree board piece (tr - 1 \<ge> 1 \<and> tc - 1 \<ge> 0) (tr - 1) (tc - 1) [];
     v \<leftarrow> yepIfFree board piece (tr - 1 \<ge> 1 \<and> tc - 0 \<ge> 0) (tr - 1) (tc - 0) v;
     v \<leftarrow> yepIfFree board piece (tr - 0 \<ge> 1 \<and> tc - 1 \<ge> 0) (tr - 0) (tc - 1) v;
     v \<leftarrow> yepIfFree board piece (tr + 1 \<le> 8 \<and> tc + 1 \<le> 7) (tr + 1) (tc + 1) v;
     v \<leftarrow> yepIfFree board piece (tr + 1 \<le> 8 \<and> tc + 0 \<le> 7) (tr + 1) (tc + 0) v;
     v \<leftarrow> yepIfFree board piece (tr + 0 \<le> 8 \<and> tc + 1 \<le> 7) (tr + 0) (tc + 1) v;
     v \<leftarrow> yepIfFree board piece (tr + 1 \<le> 8 \<and> tc - 1 \<ge> 0) (tr + 1) (tc - 1) v;
     yepIfFree board piece (tr - 1 \<ge> 1 \<and> tc + 1 \<le> 7) (tr - 1) (tc + 1) v
   }"

definition validMoves :: "Board \<Rightarrow> int \<Rightarrow> coord list option" where
  "validMoves board pos = do {
     let (orow, ocol) = coordsFromIndex pos;
     piece \<leftarrow> byteAt board pos;
     if piece = CHR ''P'' then validMoves_P board piece orow ocol
     else if piece = CHR ''p'' then validMoves_p board piece orow ocol
     else if piece = CHR ''R'' \<or> piece = CHR ''r'' then validMoves_R board piece orow ocol []
     else if piece = CHR ''B'' \<or> piece = CHR ''b'' then validMoves_B board piece orow ocol []
     else if piece = CHR ''N'' \<or> piece = CHR ''n'' then validMoves_N board piece orow ocol
     else if piece = CHR ''K'' \<or> piece = CHR ''k'' then validMoves_K board piece orow ocol
     else if piece = CHR ''Q'' \<or> piece = CHR ''q'' then do {
       v \<leftarrow> validMoves_R board piece orow ocol [];
       validMoves_B board piece orow ocol v
     }
     else Some []
   }"

text \<open>\<^verbatim>\<open>All\<close>: the indices of the cells that hold the piece, in board order.\<close>

definition All :: "Board \<Rightarrow> char \<Rightarrow> int list" where
  "All board piece = map int (filter (\<lambda>i. board ! i = piece) [0..<length board])"

section \<open>Notation\<close>

text \<open>
  \<^verbatim>\<open>AlgebraicRx = ([PBNRQK])([a-h])?([1-8])?(x)?([a-h][1-8])\<close>. Go's regexp finds
  the leftmost match and, at that start, the match a backtracking search finds first:
  an optional group is tried present before absent. \<open>FindStringSubmatch\<close> returns the
  five groups (an absent group is the empty string), or \<open>None\<close> for \<^verbatim>\<open>nil\<close>.
\<close>

definition isPieceLetter :: "char \<Rightarrow> bool" where
  "isPieceLetter c = (c \<in> set ''PBNRQK'')"

definition isFile :: "char \<Rightarrow> bool" where
  "isFile c = (ord CHR ''a'' \<le> ord c \<and> ord c \<le> ord CHR ''h'')"

definition isRank :: "char \<Rightarrow> bool" where
  "isRank c = (ord CHR ''1'' \<le> ord c \<and> ord c \<le> ord CHR ''8'')"

definition isX :: "char \<Rightarrow> bool" where
  "isX c = (c = CHR ''x'')"

definition rxDst :: "string \<Rightarrow> string option" where
  "rxDst s = (case s of
       f # r # _ \<Rightarrow> if isFile f \<and> isRank r then Some [f, r] else None
     | _ \<Rightarrow> None)"

definition rxOpt :: "(char \<Rightarrow> bool) \<Rightarrow> (string \<Rightarrow> 'a option) \<Rightarrow> string \<Rightarrow> (string \<times> 'a) option" where
  "rxOpt cls rest s =
     (case (case s of c # t \<Rightarrow> if cls c then map_option (Pair [c]) (rest t) else None | [] \<Rightarrow> None) of
        Some m \<Rightarrow> Some m
      | None \<Rightarrow> map_option (Pair []) (rest s))"

definition rxAt :: "string \<Rightarrow> (string \<times> string \<times> string \<times> string \<times> string) option" where
  "rxAt s = (case s of
       p # t \<Rightarrow> if isPieceLetter p
                then map_option (Pair [p]) (rxOpt isFile (rxOpt isRank (rxOpt isX rxDst)) t)
                else None
     | [] \<Rightarrow> None)"

fun FindStringSubmatch :: "string \<Rightarrow> (string \<times> string \<times> string \<times> string \<times> string) option" where
  "FindStringSubmatch [] = rxAt []"
| "FindStringSubmatch (c # s) =
     (case rxAt (c # s) of Some m \<Rightarrow> Some m | None \<Rightarrow> FindStringSubmatch s)"

definition MatchString :: "string \<Rightarrow> bool" where
  "MatchString s = (FindStringSubmatch s \<noteq> None)"

text \<open>
  \<^verbatim>\<open>%c\<close> prints a code point in UTF-8 (every argument here is below 256: a byte, or
  a letter plus a column), \<^verbatim>\<open>%d\<close> an integer in decimal.
\<close>

definition Sprintf_c :: "int \<Rightarrow> string" where
  "Sprintf_c n = (if n < 128 then [char_of n]
                  else [char_of (192 + n div 64), char_of (128 + n mod 64)])"

fun decimal :: "nat \<Rightarrow> string" where
  "decimal n = (if n < 10 then [char_of (48 + n)]
                else decimal (n div 10) @ [char_of (48 + n mod 10)])"

definition Sprintf_d :: "int \<Rightarrow> string" where
  "Sprintf_d i = (if i < 0 then CHR ''-'' # decimal (nat (- i)) else decimal (nat i))"

text \<open>The first loop of \<^verbatim>\<open>Algebraic\<close>: a candidate is skipped when a given source
  column or row differs from its own (byte arithmetic, so modulo 256).\<close>

definition candidate :: "string \<Rightarrow> string \<Rightarrow> int \<Rightarrow> bool" where
  "candidate srccol srcrow p =
     (let (r, c) = coordsFromIndex p in
      if srccol \<noteq> [] \<and> (ord (hd srccol) - ord CHR ''a'') mod 256 \<noteq> c then False
      else if srcrow \<noteq> [] \<and> (ord (hd srcrow) - ord CHR ''0'') mod 256 \<noteq> r then False
      else True)"

text \<open>The inner loop over the moves of candidate \<open>p\<close>: the early return, or the new \<open>src\<close>.\<close>

fun matchMoves :: "int \<Rightarrow> int \<Rightarrow> int \<Rightarrow> coord list \<Rightarrow> string \<Rightarrow> error + string" where
  "matchMoves p drow dcol [] src = Inr src"
| "matchMoves p drow dcol (mv # mvs) src =
     (if row mv = drow \<and> col mv = dcol then
        (if src \<noteq> [] then Inl AmbiguousMove
         else (let (srow, scol) = coordsFromIndex p
               in matchMoves p drow dcol mvs (Sprintf_c (ord CHR ''A'' + scol) @ Sprintf_d srow)))
      else matchMoves p drow dcol mvs src)"

fun matchCands :: "Board \<Rightarrow> int \<Rightarrow> int \<Rightarrow> int list \<Rightarrow> string \<Rightarrow> (error + string) option" where
  "matchCands board drow dcol [] src = Some (Inr src)"
| "matchCands board drow dcol (p # ps) src =
     (case validMoves board p of
        None \<Rightarrow> None
      | Some mvs \<Rightarrow>
          (case matchMoves p drow dcol mvs src of
             Inl e \<Rightarrow> Some (Inl e)
           | Inr src' \<Rightarrow> matchCands board drow dcol ps src'))"

definition Algebraic :: "Board \<Rightarrow> string \<Rightarrow> bool \<Rightarrow> (string \<times> string \<times> error option) option" where
  "Algebraic board move isWhite =
     (if move = ''O-O'' then
        (if isWhite then Some (''E1'', ''G1'', None) else Some (''E8'', ''G8'', None))
      else if move = ''O-O-O'' then
        (if isWhite then Some (''E1'', ''C1'', None) else Some (''E8'', ''C8'', None))
      else
        (case FindStringSubmatch move of
           None \<Rightarrow> Some ([], [], Some InvalidNotation)
         | Some (m1, srccol, srcrow, m4, m5) \<Rightarrow> do {
             piece \<leftarrow> byteAt m1 0;
             (dst, _) \<leftarrow> Position board m5;
             let piece = (if isWhite then char_of (ord piece + 32) else piece);
             let cands = filter (candidate srccol srcrow) (All board piece);
             let (drow, dcol) = coordsFromIndex dst;
             res \<leftarrow> matchCands board drow dcol cands [];
             (case res of
                Inl e \<Rightarrow> Some ([], [], Some e)
              | Inr src \<Rightarrow>
                  if src = [] then Some ([], [], Some NoMatchingMove)
                  else Some (src, m5, None))
           }))"

definition CoordsToAlgebraic :: "Board \<Rightarrow> string \<Rightarrow> string \<Rightarrow> (string \<times> error option) option" where
  "CoordsToAlgebraic board srcs dsts = do {
     (src, err) \<leftarrow> Position board srcs;
     if err \<noteq> None then Some ([], err)
     else do {
       (dst, err) \<leftarrow> Position board dsts;
       if err \<noteq> None then Some ([], err)
       else do {
         bs \<leftarrow> byteAt board src;
         if bs = CHR ''_'' then Some ([], Some NoPieceAtSource)
         else do {
           bd \<leftarrow> byteAt board dst;
           let x = (if bd \<noteq> CHR ''_'' then ''x'' else []);
           let white = (ord bs \<ge> ord CHR ''a'');
           let piece = (if ord bs \<ge> ord CHR ''a'' then char_of (ord bs - 32) else bs);
           let try = Sprintf_c (ord piece) @ x @ ToLower dsts;
           (_, _, err) \<leftarrow> Algebraic board try white;
           if err = None then Some (try, None)
           else do {
             let (r, c) = coordsFromIndex src;
             let cs = ord CHR ''a'' + c;
             let try = Sprintf_c (ord piece) @ Sprintf_c cs @ x @ ToLower dsts;
             (_, _, err) \<leftarrow> Algebraic board try white;
             if err = None then Some (try, None)
             else do {
               let try = Sprintf_c (ord piece) @ Sprintf_c cs @ Sprintf_d r @ x @ ToLower dsts;
               (_, _, err) \<leftarrow> Algebraic board try white;
               if err = None then Some (try, None)
               else Some ([], Some NoDisambiguation)
             }
           }
         }
       }
     }
   }"

section \<open>The game of a channel\<close>

text \<open>
  \<^verbatim>\<open>Game\<close> of \<^verbatim>\<open>bot/bot.go\<close>. Times are integers (nanoseconds): \<open>TickFrom\<close> an
  instant, the two \<open>Elapsed\<close> fields durations.
\<close>

record Game =
  Board :: Board
  Black :: string
  White :: string
  PlayingWhite :: bool
  Winner :: string
  BlackOk :: bool
  WhiteOk :: bool
  TickFrom :: int
  WhiteElapsed :: int
  BlackElapsed :: int
  Allowed :: bool
  Moves :: "string list"
  Previous :: "Board list"

text \<open>What \<^verbatim>\<open>Incoming\<close> answers to the channel (the text of the message left out).\<close>

datatype reply =
    AlreadyWon          \<comment> \<open>\<^verbatim>\<open>%s has already won this game. ...\<close>\<close>
  | Silent              \<comment> \<open>a \<^verbatim>\<open>return\<close> without a post\<close>
  | CantUnderstand error  \<comment> \<open>\<^verbatim>\<open>I can't understand that move: %s\<close>\<close>
  | NotValidMove error    \<comment> \<open>\<^verbatim>\<open>That's not a valid move: %s\<close>\<close>
  | Moved               \<comment> \<open>the board is drawn after a move\<close>
  | NotYourTurn         \<comment> \<open>\<^verbatim>\<open>It's not your turn.\<close>\<close>
  | NoMovesToTakeBack   \<comment> \<open>\<^verbatim>\<open>There are no moves to take back.\<close>\<close>
  | TakesBack string    \<comment> \<open>\<^verbatim>\<open>... takes back %s, ...'s move again\<close>\<close>
  | CantTakeBack        \<comment> \<open>\<^verbatim>\<open>You can't take a move back.\<close>\<close>

text \<open>The closure \<^verbatim>\<open>move\<close> of the move case: the game after it, and its error.\<close>

definition move :: "Game \<Rightarrow> string \<Rightarrow> string \<Rightarrow> string \<Rightarrow> (Game \<times> error option) option" where
  "move game start end' alg = do {
     (board, err) \<leftarrow> Move (Board game) start end';
     if err \<noteq> None then Some (game, err)
     else do {
       let game = game\<lparr>Previous := Previous game @ [Board game]\<rparr>;
       let game = (if alg \<noteq> [] then game\<lparr>Moves := Moves game @ [alg]\<rparr>
                   else game\<lparr>Moves := Moves game @ [start @ '' '' @ end']\<rparr>);
       let game = game\<lparr>Board := board\<rparr>;
       Some (game, None)
     }
   }"

text \<open>
  \<^verbatim>\<open>Incoming\<close> returns before its switch, without a post and without touching the
  game, for a message of the bot itself (the user \<^verbatim>\<open>chessbot3000\<close>), and for a message
  in a channel where chess is not allowed unless the message matches one of the
  patterns \<^verbatim>\<open>yo.*chessbot\<close>, \<^verbatim>\<open>chess.*ok.*here\<close>, \<^verbatim>\<open>help.*me.*chessbot\<close>. The
  argument \<open>exempt\<close> of the two functions below says whether the message matches one
  of these three patterns. Each function is \<^verbatim>\<open>Incoming\<close> for a message that the switch
  sends to the case it names: the two returns first, then the body of the case.
\<close>

text \<open>
  The move case of \<^verbatim>\<open>Incoming\<close>, for the user \<open>user\<close> and the message \<open>text\<close>.
  \<open>tox\<close> is what the coordinate pattern \<^verbatim>\<open>([A-Ha-h][1-8])\s?([A-Ha-h][1-8])\<close> captures
  in the message, read only when the message holds no notation; \<open>now1\<close> and \<open>now2\<close>
  are the two readings of the clock (\<^verbatim>\<open>time.Since\<close>, \<^verbatim>\<open>time.Now\<close>).
\<close>

definition Incoming_move ::
  "Game \<Rightarrow> string \<Rightarrow> string \<Rightarrow> bool \<Rightarrow> string \<times> string \<Rightarrow> int \<Rightarrow> int \<Rightarrow>
   (Game \<times> reply) option" where
  "Incoming_move game user text exempt tox now1 now2 =
     (if user = ''chessbot3000'' then Some (game, Silent)
      else if \<not> Allowed game \<and> \<not> exempt then Some (game, Silent)
      else if Winner game \<noteq> [] then Some (game, AlreadyWon)
      else do {
        parsed \<leftarrow>
          (if MatchString text then
             (let white = (White game = user \<and> PlayingWhite game) in
              if \<not> white \<and> Black game \<noteq> user then Some (Inl Silent)
              else do {
                (start, end', err) \<leftarrow> Algebraic (Board game) text white;
                if err \<noteq> None then Some (Inl (CantUnderstand (the err)))
                else Some (Inr (start, end'))
              })
           else Some (Inr (ToUpper (fst tox), ToUpper (snd tox))));
        (case parsed of
           Inl r \<Rightarrow> Some (game, r)
         | Inr (start, end') \<Rightarrow> do {
             (alg, _) \<leftarrow> CoordsToAlgebraic (Board game) start end';
             if user \<noteq> White game \<and> user \<noteq> Black game then Some (game, Silent)
             else if user = White game \<and> PlayingWhite game then do {
               (game, err) \<leftarrow> move game start end' alg;
               if err \<noteq> None then Some (game, NotValidMove (the err))
               else do {
                 let game = game\<lparr>WhiteElapsed := WhiteElapsed game + (now1 - TickFrom game)\<rparr>;
                 let game = game\<lparr>PlayingWhite := False\<rparr>;
                 let game = game\<lparr>TickFrom := now2\<rparr>;
                 Some (game, Moved)
               }
             }
             else if user = Black game \<and> \<not> PlayingWhite game then do {
               (game, err) \<leftarrow> move game start end' alg;
               if err \<noteq> None then Some (game, NotValidMove (the err))
               else do {
                 let game = game\<lparr>BlackElapsed := BlackElapsed game + (now1 - TickFrom game)\<rparr>;
                 let game = game\<lparr>TickFrom := now2\<rparr>;
                 let game = game\<lparr>PlayingWhite := True\<rparr>;
                 Some (game, Moved)
               }
             }
             else Some (game, NotYourTurn)
           })
      })"

text \<open>
  The take-back case of \<^verbatim>\<open>Incoming\<close>. The message posted names the last move,
  \<^verbatim>\<open>game.Moves[len(game.Moves)-1]\<close>, which panics on an empty move history.
\<close>

definition lastOf :: "'a list \<Rightarrow> 'a option" where
  "lastOf xs = (if xs = [] then None else Some (last xs))"

definition Incoming_takeback :: "Game \<Rightarrow> string \<Rightarrow> bool \<Rightarrow> (Game \<times> reply) option" where
  "Incoming_takeback game user exempt =
     (if user = ''chessbot3000'' then Some (game, Silent)
      else if \<not> Allowed game \<and> \<not> exempt then Some (game, Silent)
      else if Winner game \<noteq> [] then Some (game, AlreadyWon)
      else if length (Previous game) < 1 then Some (game, NoMovesToTakeBack)
      else if user = White game \<and> \<not> PlayingWhite game then do {
        b \<leftarrow> lastOf (Previous game);
        let game = game\<lparr>Board := b\<rparr>;
        let game = game\<lparr>PlayingWhite := True\<rparr>;
        m \<leftarrow> lastOf (Moves game);
        Some (game, TakesBack m)
      }
      else if user = Black game \<and> PlayingWhite game then do {
        b \<leftarrow> lastOf (Previous game);
        let game = game\<lparr>Board := b\<rparr>;
        let game = game\<lparr>PlayingWhite := False\<rparr>;
        m \<leftarrow> lastOf (Moves game);
        Some (game, TakesBack m)
      }
      else Some (game, CantTakeBack))"

section \<open>Notions of the specification\<close>

text \<open>
  A coordinate is a file letter and a rank digit. The column of a file letter, in
  either case, and the number of a rank digit; the 64 coordinates, from A8 to H1.
\<close>

definition fileIndex :: "char \<Rightarrow> int" where
  "fileIndex f = (if ord CHR ''a'' \<le> ord f then ord f - ord CHR ''a'' else ord f - ord CHR ''A'')"

definition rankNumber :: "char \<Rightarrow> int" where
  "rankNumber r = ord r - ord CHR ''0''"

definition coordinates :: "string list" where
  "coordinates = concat (map (\<lambda>r. map (\<lambda>f. [f, r]) ''ABCDEFGH'') ''87654321'')"

text \<open>
  The colours. Lower case is white: \<open>Algebraic\<close> looks for the lower-case letter when
  the side to move is white, \<open>CoordsToAlgebraic\<close> takes a piece from \<^verbatim>\<open>'a'\<close> upwards
  for white, and the starting board has the lower-case pieces on ranks 1 and 2.
  \<open>pieceOf isWhite letter\<close> is the byte of the piece, as \<open>Algebraic\<close> computes it.
\<close>

definition pieceOf :: "bool \<Rightarrow> char \<Rightarrow> char" where
  "pieceOf isWhite letter = (if isWhite then char_of (ord letter + 32) else letter)"

text \<open>The destination is among the valid moves of the piece at index \<open>p\<close>.\<close>

definition reaches :: "Board \<Rightarrow> coord \<Rightarrow> int \<Rightarrow> bool" where
  "reaches board dst p = (case validMoves board p of None \<Rightarrow> False | Some mvs \<Rightarrow> dst \<in> set mvs)"

text \<open>
  A well-formed notation: a piece letter, an optional source file, an optional source
  rank, an optional capture marker, and the destination file and rank, with nothing
  before or after.
\<close>

definition opt :: "char option \<Rightarrow> string" where
  "opt co = (case co of None \<Rightarrow> [] | Some c \<Rightarrow> [c])"

definition notationOf :: "char \<Rightarrow> char option \<Rightarrow> char option \<Rightarrow> bool \<Rightarrow> char \<Rightarrow> char \<Rightarrow> string" where
  "notationOf L fo ro cap F R = [L] @ opt fo @ opt ro @ (if cap then ''x'' else []) @ [F, R]"

definition wellFormed :: "char \<Rightarrow> char option \<Rightarrow> char option \<Rightarrow> char \<Rightarrow> char \<Rightarrow> bool" where
  "wellFormed L fo ro F R =
     (L \<in> set ''PBNRQK'' \<and>
      (case fo of None \<Rightarrow> True | Some f \<Rightarrow> f \<in> set ''abcdefgh'') \<and>
      (case ro of None \<Rightarrow> True | Some r \<Rightarrow> r \<in> set ''12345678'') \<and>
      F \<in> set ''abcdefgh'' \<and> R \<in> set ''12345678'')"

text \<open>
  The candidate source pieces of a notation: the cells that hold the piece of the side
  to move, on the source file and rank when these are given. The matching ones are
  those with the destination among their valid moves.
\<close>

definition candidates :: "Board \<Rightarrow> bool \<Rightarrow> char \<Rightarrow> char option \<Rightarrow> char option \<Rightarrow> int list" where
  "candidates board isWhite L fo ro =
     filter (\<lambda>p. (case fo of None \<Rightarrow> True | Some f \<Rightarrow> snd (coordsFromIndex p) = fileIndex f) \<and>
                 (case ro of None \<Rightarrow> True | Some r \<Rightarrow> fst (coordsFromIndex p) = rankNumber r))
       (All board (pieceOf isWhite L))"

definition matching ::
  "Board \<Rightarrow> bool \<Rightarrow> char \<Rightarrow> char option \<Rightarrow> char option \<Rightarrow> char \<Rightarrow> char \<Rightarrow> int list" where
  "matching board isWhite L fo ro F R =
     filter (reaches board (Coord (rankNumber R) (fileIndex F))) (candidates board isWhite L fo ro)"

text \<open>
  The coordinate of an index, in upper case, and the pseudo-legal moves of a board as
  pairs of coordinates: for every cell, each of its valid moves.
\<close>

definition coordName :: "int \<Rightarrow> string" where
  "coordName p = (let (r, c) = coordsFromIndex p in Sprintf_c (ord CHR ''A'' + c) @ Sprintf_d r)"

definition movesOn :: "Board \<Rightarrow> (string \<times> string) list" where
  "movesOn board =
     concat (map (\<lambda>p. case validMoves board p of
                         None \<Rightarrow> []
                       | Some mvs \<Rightarrow>
                           map (\<lambda>mv. (coordName p, coordName (indexFromCoords (row mv) (col mv)))) mvs)
                 (map int [0..<length board]))"

text \<open>
  The side to move for a move from \<open>src\<close> is the colour of the piece there. The round
  trip of a move: its notation, read back for that side, gives the source and the
  destination, the destination in lower case as the notation writes it.
\<close>

definition whiteAt :: "Board \<Rightarrow> string \<Rightarrow> bool" where
  "whiteAt board src =
     (case PieceAt board src of Some ([c], None) \<Rightarrow> ord c \<ge> ord CHR ''a'' | _ \<Rightarrow> False)"

definition roundTrip :: "Board \<Rightarrow> string \<Rightarrow> string \<Rightarrow> bool" where
  "roundTrip board src dst =
     (case CoordsToAlgebraic board src dst of
        Some (n, None) \<Rightarrow> Algebraic board n (whiteAt board src) = Some (src, ToLower dst, None)
      | _ \<Rightarrow> False)"

text \<open>Cells inside the board, and the cells a ray starting inside the board stays in.\<close>

definition inBoard :: "int \<Rightarrow> int \<Rightarrow> bool" where
  "inBoard r c = (1 \<le> r \<and> r \<le> 8 \<and> 0 \<le> c \<and> c \<le> 7)"

definition rayInv :: "int \<Rightarrow> int \<Rightarrow> int \<Rightarrow> int \<Rightarrow> bool" where
  "rayInv dr dc tr tc =
     ((if dr = 1 then 1 \<le> tr else if dr = -1 then tr \<le> 8 else 1 \<le> tr \<and> tr \<le> 8) \<and>
      (if dc = 1 then 0 \<le> tc else if dc = -1 then tc \<le> 7 else 0 \<le> tc \<and> tc \<le> 7))"

subsection \<open>Positions and games used as examples\<close>

text \<open>After e2-e4 and Nb1-c3: the white knights of C3 and G1 both reach the empty E2.\<close>

definition twoKnightsBoard :: Board where
  "twoKnightsBoard = ''RNBQKBNRPPPPPPPP____________________p_____n_____pppp_pppr_bqkbnr''"

text \<open>The starting board with F1 and G1 cleared.\<close>

definition castleBoard :: Board where
  "castleBoard = ''RNBQKBNRPPPPPPPP________________________________pppppppprnbqk__r''"

text \<open>Two kings, a white pawn on A7 and a black pawn on H2.\<close>

definition promotionBoard :: Board where
  "promotionBoard = ''____K___p______________________________________________P____k___''"

text \<open>The starting board with the white knight of B1 on A6, in front of the pawn of A7.\<close>

definition jumpBoard :: Board where
  "jumpBoard = ''RNBQKBNRPPPPPPPPn_______________________________ppppppppr_bqkbnr''"

text \<open>A black pawn on E4 beside a white pawn on D4, the white queen on D3.\<close>

definition captureBoard :: Board where
  "captureBoard = ''RNBQKBNRPPPP_PPP___________________pP______q____ppp_pppprnb_kbnr''"

definition startGame :: Game where
  "startGame = \<lparr>Board = Normalize StartingBoard, Black = ''bob'', White = ''alice'',
     PlayingWhite = True, Winner = [], BlackOk = True, WhiteOk = True, TickFrom = 100,
     WhiteElapsed = 0, BlackElapsed = 0, Allowed = True, Moves = [], Previous = []\<rparr>"

text \<open>\<open>startGame\<close> after white's move Nf3, made at time 150.\<close>

definition movedGame :: Game where
  "movedGame = \<lparr>Board = ''RNBQKBNRPPPPPPPP_____________________________n__pppppppprnbqkb_r'',
     Black = ''bob'', White = ''alice'',
     PlayingWhite = False, Winner = [], BlackOk = True, WhiteOk = True, TickFrom = 151,
     WhiteElapsed = 50, BlackElapsed = 0, Allowed = True, Moves = [''Nf3''],
     Previous = [Normalize StartingBoard]\<rparr>"

section \<open>Bytes and letters\<close>

lemma mem_set_ord: "c \<in> set s \<longleftrightarrow> ord c \<in> ord ` set s"
  by (simp add: inj_image_mem_iff[OF inj_of_char])

lemma upper_file_iff: "c \<in> set ''ABCDEFGH'' \<longleftrightarrow> 65 \<le> ord c \<and> ord c \<le> 72"
  by (subst mem_set_ord) (simp, arith)

lemma lower_file_iff: "c \<in> set ''abcdefgh'' \<longleftrightarrow> 97 \<le> ord c \<and> ord c \<le> 104"
  by (subst mem_set_ord) (simp, arith)

lemma rank_iff: "c \<in> set ''12345678'' \<longleftrightarrow> 49 \<le> ord c \<and> ord c \<le> 56"
  by (subst mem_set_ord) (simp, arith)

lemma ord_range: "0 \<le> ord c" "ord c < 256"
  by (simp_all add: of_char_def)

lemma ord_toUpperByte:
  "ord (toUpperByte c) = (if 97 \<le> ord c \<and> ord c \<le> 122 then ord c - 32 else ord c)"
  using ord_range[of c] by (auto simp: toUpperByte_def)

lemma toUpperByte_idem: "toUpperByte (toUpperByte c) = toUpperByte c"
proof (rule of_char_eqI)
  show "ord (toUpperByte (toUpperByte c)) = ord (toUpperByte c)"
    by (simp add: ord_toUpperByte)
qed

lemma ToUpper_idem: "ToUpper (ToUpper s) = ToUpper s"
  by (simp add: ToUpper_def toUpperByte_idem)

lemma Position_ToUpper: "Position board (ToUpper s) = Position board s"
  by (simp add: Position_def ToUpper_idem)

lemma Position_Cons2:
  "Position board (f # r # rest) =
     (if ord (toUpperByte f) < 65 \<or> ord (toUpperByte f) > 72 then Some (-1, Some InvalidCoordinate)
      else if ord (toUpperByte r) < 49 \<or> ord (toUpperByte r) > 56 then Some (-1, Some InvalidCoordinate)
      else Some ((8 - (ord (toUpperByte r) - 48)) * 8 + (ord (toUpperByte f) - 65), None))"
  by (simp add: Position_def ToUpper_def byteAt_def Let_def)

lemma Position_coordinates:
  "map (\<lambda>s. fst (the (Position board s))) coordinates = [0..63]"
  by (simp add: coordinates_def Position_Cons2 toUpperByte_def upto.simps)

lemma Position_Nil: "Position board [] = None"
  by (simp add: Position_def ToUpper_def byteAt_def)

lemma Position_single:
  "Position board [c] =
     (if ord (toUpperByte c) < 65 \<or> ord (toUpperByte c) > 72 then Some (-1, Some InvalidCoordinate)
      else None)"
  by (simp add: Position_def ToUpper_def byteAt_def)

lemma file_letter_iff:
  "c \<in> set ''ABCDEFGHabcdefgh'' \<longleftrightarrow> 65 \<le> ord (toUpperByte c) \<and> ord (toUpperByte c) \<le> 72"
proof -
  have "c \<in> set ''ABCDEFGHabcdefgh'' \<longleftrightarrow> c \<in> set ''ABCDEFGH'' \<or> c \<in> set ''abcdefgh''"
    by auto
  then show ?thesis
    unfolding upper_file_iff lower_file_iff ord_toUpperByte by auto
qed

lemma ord_toUpperByte_rank:
  "(ord (toUpperByte r) < 49 \<or> ord (toUpperByte r) > 56) \<longleftrightarrow> r \<notin> set ''12345678''"
  unfolding rank_iff ord_toUpperByte by auto

lemma fileIndex_eq:
  "c \<in> set ''ABCDEFGHabcdefgh'' \<Longrightarrow> fileIndex c = ord (toUpperByte c) - 65"
  unfolding file_letter_iff unfolding ord_toUpperByte fileIndex_def
  by (auto split: if_splits)

section \<open>Coordinates\<close>

text \<open>
  C8. For a file letter A to H in either case and a rank digit 1 to 8, \<open>Position\<close>
  returns the index \<open>(8 - rank) * 8 + (file - A)\<close>; on the 64 coordinates this is a
  bijection onto the indices 0 to 63; for any other file or rank byte it returns the
  error \<open>InvalidCoordinate\<close>. Bytes after the first two are not read.
\<close>

theorem Position_index_bijection:
  "(f \<in> set ''ABCDEFGHabcdefgh'' \<and> r \<in> set ''12345678'' \<longrightarrow>
      Position board (f # r # rest) = Some ((8 - rankNumber r) * 8 + fileIndex f, None)) \<and>
   bij_betw (\<lambda>s. fst (the (Position board s))) (set coordinates) {0..63} \<and>
   (f \<notin> set ''ABCDEFGHabcdefgh'' \<or> r \<notin> set ''12345678'' \<longrightarrow>
      Position board (f # r # rest) = Some (-1, Some InvalidCoordinate))"
proof (intro conjI impI)
  assume a: "f \<in> set ''ABCDEFGHabcdefgh'' \<and> r \<in> set ''12345678''"
  then have "ord (toUpperByte r) = ord r"
    unfolding rank_iff ord_toUpperByte by auto
  with a show "Position board (f # r # rest) = Some ((8 - rankNumber r) * 8 + fileIndex f, None)"
    using a[unfolded file_letter_iff rank_iff]
    by (simp add: Position_Cons2 fileIndex_eq rankNumber_def)
next
  have "distinct (map (\<lambda>s. fst (the (Position board s))) coordinates)"
    unfolding Position_coordinates by simp
  then have "inj_on (\<lambda>s. fst (the (Position board s))) (set coordinates)"
    by (simp add: distinct_map)
  moreover have "(\<lambda>s. fst (the (Position board s))) ` set coordinates = {0..63}"
    using Position_coordinates[of board] by (metis set_map set_upto)
  ultimately show "bij_betw (\<lambda>s. fst (the (Position board s))) (set coordinates) {0..63}"
    by (simp add: bij_betw_def)
next
  assume "f \<notin> set ''ABCDEFGHabcdefgh'' \<or> r \<notin> set ''12345678''"
  then show "Position board (f # r # rest) = Some (-1, Some InvalidCoordinate)"
    unfolding file_letter_iff ord_toUpperByte_rank[symmetric]
    by (auto simp: Position_Cons2)
qed

theorem Position_index_bijection_witness:
  "Position [] ''g1'' = Some (62, None) \<and> Position [] ''H8'' = Some (7, None) \<and>
   Position [] ''I1'' = Some (-1, Some InvalidCoordinate) \<and>
   Position [] ''A9'' = Some (-1, Some InvalidCoordinate)"
  using Position_index_bijection[of "CHR ''g''" "CHR ''1''" "[]" "[]"]
    Position_index_bijection[of "CHR ''H''" "CHR ''8''" "[]" "[]"]
    Position_index_bijection[of "CHR ''I''" "CHR ''1''" "[]" "[]"]
    Position_index_bijection[of "CHR ''A''" "CHR ''9''" "[]" "[]"]
  by (simp add: rankNumber_def fileIndex_def)

text \<open>
  C9, as the code has it. \<open>Position\<close> reads bytes 0 and 1 without a length check. It
  panics exactly on the empty string and on a one-byte string that is a file letter
  A to H in either case; on any other one-byte string the column test fails first and
  it returns \<open>InvalidCoordinate\<close>. \<open>PieceAt\<close> and \<open>Move\<close> panic where
  \<open>Position\<close> does.
\<close>

theorem Position_panics_iff:
  "(Position board s = None \<longleftrightarrow> s = [] \<or> (\<exists>c. s = [c] \<and> c \<in> set ''ABCDEFGHabcdefgh'')) \<and>
   (c \<notin> set ''ABCDEFGHabcdefgh'' \<longrightarrow> Position board [c] = Some (-1, Some InvalidCoordinate)) \<and>
   (Position board s = None \<longrightarrow> PieceAt board s = None \<and> Move board s t = None)"
proof (intro conjI impI)
  show "Position board s = None \<longleftrightarrow> s = [] \<or> (\<exists>c. s = [c] \<and> c \<in> set ''ABCDEFGHabcdefgh'')"
  proof (cases s)
    case Nil
    then show ?thesis by (simp add: Position_Nil)
  next
    case (Cons a t)
    then show ?thesis
      unfolding file_letter_iff
      by (cases t) (auto simp: Position_single Position_Cons2)
  qed
next
  assume "c \<notin> set ''ABCDEFGHabcdefgh''"
  then show "Position board [c] = Some (-1, Some InvalidCoordinate)"
    unfolding file_letter_iff by (auto simp: Position_single)
next
  assume "Position board s = None"
  then show "PieceAt board s = None" by (simp add: PieceAt_def)
next
  assume "Position board s = None"
  with Position_ToUpper[of board s] show "Move board s t = None" by (simp add: Move_def)
qed

text \<open>
  C9 as stated fails: the one-byte string \<^verbatim>\<open>Z\<close> is shorter than two bytes, and
  \<open>Position\<close> returns the error instead of panicking.
\<close>

theorem Position_short_counterexample:
  "length ''Z'' < 2 \<and> Position (Normalize StartingBoard) ''Z'' = Some (-1, Some InvalidCoordinate)"
  by (simp add: Position_single toUpperByte_def)

theorem Position_panics_iff_witness:
  "Position (Normalize StartingBoard) [] = None \<and> Position (Normalize StartingBoard) ''e'' = None \<and>
   PieceAt (Normalize StartingBoard) ''e'' = None \<and> Move (Normalize StartingBoard) ''e'' ''e4'' = None \<and>
   Position (Normalize StartingBoard) ''Z'' = Some (-1, Some InvalidCoordinate)"
  using Position_panics_iff[of "Normalize StartingBoard" "[]" "CHR ''Z''" "''e4''"]
    Position_panics_iff[of "Normalize StartingBoard" "''e''" "CHR ''Z''" "''e4''"]
  by simp

section \<open>Moving pieces\<close>

lemma Normalize_StartingBoard:
  "Normalize StartingBoard = ''RNBQKBNRPPPPPPPP________________________________pppppppprnbqkbnr''"
  by (simp add: StartingBoard_def Normalize_def IsSpace_def)

text \<open>
  C2. On every board of 64 cells, a white king on E1 moved to G1 or C1, and a black
  king on E8 moved to G8 or C8, is castled: the king on the destination, a rook of its
  colour on the square beside it, the king's square and the rook's corner empty, and
  every other cell as it was. No other cell of the board is looked at.
\<close>

theorem Move_castles:
  assumes "length board = 64"
  shows "(board ! 60 = CHR ''k'' \<longrightarrow>
            Move board ''E1'' ''G1'' =
              Some (board[62 := CHR ''k'', 61 := CHR ''r'', 60 := CHR ''_'', 63 := CHR ''_''], None) \<and>
            Move board ''E1'' ''C1'' =
              Some (board[58 := CHR ''k'', 59 := CHR ''r'', 60 := CHR ''_'', 56 := CHR ''_''], None)) \<and>
         (board ! 4 = CHR ''K'' \<longrightarrow>
            Move board ''E8'' ''G8'' =
              Some (board[6 := CHR ''K'', 5 := CHR ''R'', 4 := CHR ''_'', 7 := CHR ''_''], None) \<and>
            Move board ''E8'' ''C8'' =
              Some (board[2 := CHR ''K'', 3 := CHR ''R'', 4 := CHR ''_'', 0 := CHR ''_''], None))"
  using assms
  by (auto simp: Move_def ToUpper_def toUpperByte_def Position_Cons2 byteAt_def Replace_def)

theorem Move_castles_witness:
  "length castleBoard = 64 \<and> castleBoard ! 60 = CHR ''k'' \<and>
   castleBoard = (Normalize StartingBoard)[61 := CHR ''_'', 62 := CHR ''_''] \<and>
   Move castleBoard ''E1'' ''G1'' =
     Some (''RNBQKBNRPPPPPPPP________________________________pppppppprnbq_rk_'', None) \<and>
   PieceAt ''RNBQKBNRPPPPPPPP________________________________pppppppprnbq_rk_'' ''G1'' = Some (''k'', None) \<and>
   PieceAt ''RNBQKBNRPPPPPPPP________________________________pppppppprnbq_rk_'' ''F1'' = Some (''r'', None) \<and>
   PieceAt ''RNBQKBNRPPPPPPPP________________________________pppppppprnbq_rk_'' ''E1'' = Some (''_'', None) \<and>
   PieceAt ''RNBQKBNRPPPPPPPP________________________________pppppppprnbq_rk_'' ''H1'' = Some (''_'', None) \<and>
   castleBoard ! 4 = CHR ''K'' \<and>
   Move castleBoard ''E8'' ''G8'' =
     Some (''RNBQ_RK_PPPPPPPP________________________________pppppppprnbqk__r'', None)"
  using Move_castles[of castleBoard]
  by (simp add: castleBoard_def Normalize_StartingBoard PieceAt_def Position_Cons2 toUpperByte_def byteAt_def)

lemma pieceOf_simps:
  "pieceOf True CHR ''P'' = CHR ''p''" "pieceOf True CHR ''Q'' = CHR ''q''" "pieceOf False c = c"
  by (simp_all add: pieceOf_def char_of_def)

text \<open>A move of anything but a king from one coordinate to another.\<close>

lemma Move_plain:
  assumes "length board = 64"
    and "f \<in> set ''ABCDEFGH''" and "r \<in> set ''12345678''"
    and "g \<in> set ''ABCDEFGH''" and "q \<in> set ''12345678''"
    and "board ! nat ((8 - rankNumber r) * 8 + fileIndex f) = piece"
    and "piece \<noteq> CHR ''_''" and "piece \<noteq> CHR ''k''" and "piece \<noteq> CHR ''K''"
  shows "Move board [f, r] [g, q] =
     Some (board[nat ((8 - rankNumber q) * 8 + fileIndex g) :=
                   (if piece = CHR ''p'' \<and> q = CHR ''8'' then CHR ''q''
                    else if piece = CHR ''P'' \<and> q = CHR ''1'' then CHR ''Q'' else piece),
                 nat ((8 - rankNumber r) * 8 + fileIndex f) := CHR ''_''], None)"
proof -
  have u: "toUpperByte f = f" "toUpperByte g = g" "toUpperByte r = r" "toUpperByte q = q"
    using assms(2-5) unfolding upper_file_iff rank_iff
    by (auto intro!: of_char_eqI[where 'a = int] simp: ord_toUpperByte)
  have b: "65 \<le> ord f" "ord f \<le> 72" "65 \<le> ord g" "ord g \<le> 72"
    "49 \<le> ord r" "ord r \<le> 56" "49 \<le> ord q" "ord q \<le> 56"
    using assms(2-5) unfolding upper_file_iff rank_iff by auto
  have fi: "fileIndex f = ord f - 65" "fileIndex g = ord g - 65"
    using b by (auto simp: fileIndex_def)
  show ?thesis
    using assms(1,6-9) b
    by (simp add: Move_def ToUpper_def u Position_Cons2 byteAt_def Replace_def fi rankNumber_def Let_def)
qed

text \<open>
  C3, as the code has it. A white pawn (lower case) moved to rank 8 becomes a white
  queen and a black pawn (upper case) moved to rank 1 becomes a black queen, the
  source cell left empty: so for a white pawn on A7 moved to A8, and for a black pawn
  on H2 moved to H1. The colours of the claim are the other way round.
\<close>

theorem Move_promotes:
  assumes "length board = 64"
  shows "(f \<in> set ''ABCDEFGH'' \<and> r \<in> set ''12345678'' \<and> g \<in> set ''ABCDEFGH'' \<and>
          board ! nat ((8 - rankNumber r) * 8 + fileIndex f) = pieceOf True CHR ''P'' \<longrightarrow>
            Move board [f, r] [g, CHR ''8''] =
              Some (board[nat (fileIndex g) := pieceOf True CHR ''Q'',
                          nat ((8 - rankNumber r) * 8 + fileIndex f) := CHR ''_''], None)) \<and>
         (f \<in> set ''ABCDEFGH'' \<and> r \<in> set ''12345678'' \<and> g \<in> set ''ABCDEFGH'' \<and>
          board ! nat ((8 - rankNumber r) * 8 + fileIndex f) = pieceOf False CHR ''P'' \<longrightarrow>
            Move board [f, r] [g, CHR ''1''] =
              Some (board[nat (56 + fileIndex g) := pieceOf False CHR ''Q'',
                          nat ((8 - rankNumber r) * 8 + fileIndex f) := CHR ''_''], None)) \<and>
         (board ! 8 = pieceOf True CHR ''P'' \<longrightarrow>
            Move board ''A7'' ''A8'' =
              Some (board[0 := pieceOf True CHR ''Q'', 8 := CHR ''_''], None)) \<and>
         (board ! 55 = pieceOf False CHR ''P'' \<longrightarrow>
            Move board ''H2'' ''H1'' =
              Some (board[63 := pieceOf False CHR ''Q'', 55 := CHR ''_''], None))"
proof (intro conjI impI)
  assume a: "f \<in> set ''ABCDEFGH'' \<and> r \<in> set ''12345678'' \<and> g \<in> set ''ABCDEFGH'' \<and>
          board ! nat ((8 - rankNumber r) * 8 + fileIndex f) = pieceOf True CHR ''P''"
  have "CHR ''8'' \<in> set ''12345678''" by simp
  with a assms
  have "Move board [f, r] [g, CHR ''8''] =
     Some (board[nat ((8 - rankNumber CHR ''8'') * 8 + fileIndex g) :=
                   (if CHR ''p'' = CHR ''p'' \<and> CHR ''8'' = CHR ''8'' then CHR ''q''
                    else if CHR ''p'' = CHR ''P'' \<and> CHR ''8'' = CHR ''1'' then CHR ''Q'' else CHR ''p''),
                 nat ((8 - rankNumber r) * 8 + fileIndex f) := CHR ''_''], None)"
    by (intro Move_plain) (simp_all add: pieceOf_simps)
  then show "Move board [f, r] [g, CHR ''8''] =
              Some (board[nat (fileIndex g) := pieceOf True CHR ''Q'',
                          nat ((8 - rankNumber r) * 8 + fileIndex f) := CHR ''_''], None)"
    by (simp add: pieceOf_simps rankNumber_def)
next
  assume a: "f \<in> set ''ABCDEFGH'' \<and> r \<in> set ''12345678'' \<and> g \<in> set ''ABCDEFGH'' \<and>
          board ! nat ((8 - rankNumber r) * 8 + fileIndex f) = pieceOf False CHR ''P''"
  have "CHR ''1'' \<in> set ''12345678''" by simp
  with a assms
  have "Move board [f, r] [g, CHR ''1''] =
     Some (board[nat ((8 - rankNumber CHR ''1'') * 8 + fileIndex g) :=
                   (if CHR ''P'' = CHR ''p'' \<and> CHR ''1'' = CHR ''8'' then CHR ''q''
                    else if CHR ''P'' = CHR ''P'' \<and> CHR ''1'' = CHR ''1'' then CHR ''Q'' else CHR ''P''),
                 nat ((8 - rankNumber r) * 8 + fileIndex f) := CHR ''_''], None)"
    by (intro Move_plain) (simp_all add: pieceOf_simps)
  then show "Move board [f, r] [g, CHR ''1''] =
              Some (board[nat (56 + fileIndex g) := pieceOf False CHR ''Q'',
                          nat ((8 - rankNumber r) * 8 + fileIndex f) := CHR ''_''], None)"
    by (simp add: pieceOf_simps rankNumber_def)
next
  assume "board ! 8 = pieceOf True CHR ''P''"
  with assms show "Move board ''A7'' ''A8'' = Some (board[0 := pieceOf True CHR ''Q'', 8 := CHR ''_''], None)"
    by (auto simp: pieceOf_simps Move_def ToUpper_def toUpperByte_def Position_Cons2 byteAt_def Replace_def)
next
  assume "board ! 55 = pieceOf False CHR ''P''"
  with assms show "Move board ''H2'' ''H1'' = Some (board[63 := pieceOf False CHR ''Q'', 55 := CHR ''_''], None)"
    by (auto simp: pieceOf_simps Move_def ToUpper_def toUpperByte_def Position_Cons2 byteAt_def Replace_def)
qed

theorem Move_promotes_witness:
  "length promotionBoard = 64 \<and>
   PieceAt promotionBoard ''A7'' = Some ([pieceOf True CHR ''P''], None) \<and>
   PieceAt promotionBoard ''H2'' = Some ([pieceOf False CHR ''P''], None) \<and>
   Move promotionBoard ''A7'' ''A8'' =
     Some (''q___K__________________________________________________P____k___'', None) \<and>
   Move promotionBoard ''H2'' ''H1'' =
     Some (''____K___p___________________________________________________k__Q'', None) \<and>
   Move promotionBoard ''A7'' ''B8'' =
     Some (''_q__K__________________________________________________P____k___'', None) \<and>
   Move promotionBoard ''H2'' ''G1'' =
     Some (''____K___p___________________________________________________k_Q_'', None)"
  using Move_promotes[of promotionBoard "CHR ''A''" "CHR ''7''" "CHR ''B''"]
    Move_promotes[of promotionBoard "CHR ''H''" "CHR ''2''" "CHR ''G''"]
  by (simp add: promotionBoard_def pieceOf_simps rankNumber_def fileIndex_def
      PieceAt_def Position_Cons2 toUpperByte_def byteAt_def)

text \<open>
  C3 as stated fails: on the starting board A7 holds a black pawn, and after
  \<^verbatim>\<open>Move("A7","A8")\<close> the cell A8 holds that black pawn, not a black queen.
\<close>

theorem Move_black_pawn_A8_counterexample:
  "PieceAt (Normalize StartingBoard) ''A7'' = Some ([pieceOf False CHR ''P''], None) \<and>
   Move (Normalize StartingBoard) ''A7'' ''A8'' =
     Some (''PNBQKBNR_PPPPPPP________________________________pppppppprnbqkbnr'', None) \<and>
   PieceAt ''PNBQKBNR_PPPPPPP________________________________pppppppprnbqkbnr'' ''A8'' =
     Some ([pieceOf False CHR ''P''], None) \<and>
   pieceOf False CHR ''P'' \<noteq> pieceOf False CHR ''Q''"
  by (simp add: Normalize_StartingBoard pieceOf_simps PieceAt_def Move_def ToUpper_def
      Position_Cons2 toUpperByte_def byteAt_def Replace_def)

section \<open>Failing calls\<close>

lemma castle_chain_no_error:
  "(do { (rs, re) \<leftarrow> m;
        b1 \<leftarrow> Replace board k stop;
        b2 \<leftarrow> Replace b1 r re;
        b3 \<leftarrow> Replace b2 u start;
        b4 \<leftarrow> Replace b3 u rs;
        Some (b4, None) }) \<noteq> Some (b', Some e)"
  by (auto split: Option.bind_splits prod.splits)

lemma relocate_no_error:
  "(do { s1 \<leftarrow> m;
        b1 \<leftarrow> Replace board (f s1) stop;
        b2 \<leftarrow> Replace b1 u start;
        Some (b2, None) }) \<noteq> Some (b', Some e)"
  by (auto simp: Let_def split: Option.bind_splits prod.splits)

lemma Move_error_board:
  assumes "Move board s t = Some (b', Some e)"
  shows "b' = board"
proof (cases "Position board (ToUpper s)")
  case None
  with assms show ?thesis by (simp add: Move_def)
next
  case (Some p1)
  obtain start err1 where p1: "p1 = (start, err1)" by (cases p1)
  show ?thesis
  proof (cases err1)
    case (Some e1)
    with assms \<open>Position board (ToUpper s) = Some p1\<close> p1 show ?thesis by (simp add: Move_def)
  next
    case None
    note e1 = this
    show ?thesis
    proof (cases "Position board (ToUpper t)")
      case None
      with assms \<open>Position board (ToUpper s) = Some p1\<close> p1 e1 show ?thesis by (simp add: Move_def)
    next
      case (Some p2)
      obtain stop err2 where p2: "p2 = (stop, err2)" by (cases p2)
      show ?thesis
      proof (cases err2)
        case (Some e2)
        with assms \<open>Position board (ToUpper s) = Some p1\<close> p1 e1 \<open>Position board (ToUpper t) = Some p2\<close> p2
        show ?thesis by (simp add: Move_def)
      next
        case None
        note e2 = this
        show ?thesis
        proof (cases "byteAt board start")
          case None
          with assms \<open>Position board (ToUpper s) = Some p1\<close> p1 e1 \<open>Position board (ToUpper t) = Some p2\<close> p2 e2
          show ?thesis by (simp add: Move_def)
        next
          case (Some piece)
          from assms \<open>Position board (ToUpper s) = Some p1\<close> p1 e1 \<open>Position board (ToUpper t) = Some p2\<close> p2 e2 Some
          show ?thesis
            by (simp add: Move_def Let_def castle_chain_no_error relocate_no_error split: if_splits)
        qed
      qed
    qed
  qed
qed

lemma move_error_game:
  "move game s t alg = Some (g', Some e) \<Longrightarrow> g' = game"
  unfolding move_def Let_def
  by (auto split: Option.bind_splits prod.splits if_splits)

lemma Incoming_move_unchanged:
  "Incoming_move game user msg exempt tox now1 now2 = Some (g', r) \<Longrightarrow> r \<noteq> Moved \<Longrightarrow> g' = game"
  unfolding Incoming_move_def Let_def
  by (auto split: Option.bind_splits prod.splits if_splits sum.splits dest: move_error_game)

text \<open>
  C7. When \<open>Move\<close> returns an error, the board it returns is the receiver. When the
  move case of \<open>Incoming\<close> answers that the move is not valid (the error of \<open>Move\<close>),
  the game is the one before: board, move history, board history, turn flag and both
  elapsed times. The same holds for every answer other than a move made.
\<close>

theorem failing_call_keeps_state:
  "(Move board s t = Some (b', Some e) \<longrightarrow> b' = board) \<and>
   (move game s t alg = Some (g', Some e) \<longrightarrow> g' = game) \<and>
   (Incoming_move game user msg exempt tox now1 now2 = Some (g', NotValidMove e) \<longrightarrow>
      Board g' = Board game \<and> Moves g' = Moves game \<and> Previous g' = Previous game \<and>
      PlayingWhite g' = PlayingWhite game \<and> WhiteElapsed g' = WhiteElapsed game \<and>
      BlackElapsed g' = BlackElapsed game \<and> g' = game) \<and>
   (Incoming_move game user msg exempt tox now1 now2 = Some (g', r) \<and> r \<noteq> Moved \<longrightarrow> g' = game)"
  using Move_error_board[of board s t b' e] move_error_game[of game s t alg g' e]
    Incoming_move_unchanged[of game user msg exempt tox now1 now2 g' "NotValidMove e"]
    Incoming_move_unchanged[of game user msg exempt tox now1 now2 g' r]
  by auto

lemma Move_empty_source:
  "Move (Normalize StartingBoard) ''E4'' ''E5'' = Some (Normalize StartingBoard, Some NoPieceAtSource)"
  by (simp add: Normalize_StartingBoard Move_def ToUpper_def toUpperByte_def Position_Cons2 byteAt_def)

lemma Incoming_move_empty_source:
  "Incoming_move startGame ''alice'' ''e4 e5'' False (''e4'', ''e5'') 150 151 =
     Some (startGame, NotValidMove NoPieceAtSource)"
  by (simp add: Incoming_move_def startGame_def MatchString_def rxAt_def isPieceLetter_def
      CoordsToAlgebraic_def move_def
      Normalize_StartingBoard Move_def ToUpper_def toUpperByte_def Position_Cons2 byteAt_def)

lemma move_empty_source:
  "move startGame ''E4'' ''E5'' [] = Some (startGame, Some NoPieceAtSource)"
  by (simp add: move_def startGame_def Move_empty_source)

theorem failing_call_keeps_state_witness:
  "Move (Normalize StartingBoard) ''E4'' ''E5'' = Some (Normalize StartingBoard, Some NoPieceAtSource) \<and>
   move startGame ''E4'' ''E5'' [] = Some (startGame, Some NoPieceAtSource) \<and>
   Incoming_move startGame ''alice'' ''e4 e5'' False (''e4'', ''e5'') 150 151 =
     Some (startGame, NotValidMove NoPieceAtSource)"
  using failing_call_keeps_state[where board = "Normalize StartingBoard" and s = "''E4''"
      and t = "''E5''" and b' = "Normalize StartingBoard" and e = NoPieceAtSource
      and game = startGame and alg = "[]" and g' = startGame and user = "''alice''"
      and msg = "''e4 e5''" and exempt = False and tox = "(''e4'', ''e5'')" and ?now1.0 = 150 and ?now2.0 = 151
      and r = "NotValidMove NoPieceAtSource"]
    Move_empty_source move_empty_source Incoming_move_empty_source
  by simp

section \<open>Taking a move back\<close>

text \<open>
  C6. A take-back is made only for the player of the side that is not on move, and
  only with a board history that is not empty (and, by the returns at the head of
  \<^verbatim>\<open>Incoming\<close>, only for a user other than the bot, in a channel where chess is allowed
  or with a message exempt from that, and with no winner). It then sets the board to
  the last entry of the board history and flips the turn flag; the move history, the
  board history and both elapsed times stay as they are: nothing is popped.
\<close>

theorem takeback_restores_last_board:
  "Incoming_takeback game user exempt = Some (g', TakesBack m) \<longrightarrow>
      Previous game \<noteq> [] \<and>
      ((user = White game \<and> \<not> PlayingWhite game) \<or> (user = Black game \<and> PlayingWhite game)) \<and>
      Board g' = last (Previous game) \<and> PlayingWhite g' = (\<not> PlayingWhite game) \<and>
      Moves g' = Moves game \<and> Previous g' = Previous game \<and>
      WhiteElapsed g' = WhiteElapsed game \<and> BlackElapsed g' = BlackElapsed game \<and>
      g' = game\<lparr>Board := last (Previous game), PlayingWhite := \<not> PlayingWhite game\<rparr> \<and>
      user \<noteq> ''chessbot3000'' \<and> (Allowed game \<or> exempt) \<and> Winner game = []"
proof (intro conjI impI)
  assume a: "Incoming_takeback game user exempt = Some (g', TakesBack m)"
  then have p: "Previous game \<noteq> []"
    by (auto simp: Incoming_takeback_def split: if_splits)
  from a show "(user = White game \<and> \<not> PlayingWhite game) \<or> (user = Black game \<and> PlayingWhite game)"
    by (auto simp: Incoming_takeback_def split: if_splits)
  from a p show g: "g' = game\<lparr>Board := last (Previous game), PlayingWhite := \<not> PlayingWhite game\<rparr>"
    by (auto simp: Incoming_takeback_def Let_def lastOf_def split: if_splits Option.bind_splits)
  from p show "Previous game \<noteq> []" .
  from g show "Board g' = last (Previous game)" by simp
  from g show "PlayingWhite g' = (\<not> PlayingWhite game)" by simp
  from g show "Moves g' = Moves game" by simp
  from g show "Previous g' = Previous game" by simp
  from g show "WhiteElapsed g' = WhiteElapsed game" by simp
  from g show "BlackElapsed g' = BlackElapsed game" by simp
  from a show "user \<noteq> ''chessbot3000''"
    by (auto simp: Incoming_takeback_def split: if_splits)
  from a show "Allowed game \<or> exempt"
    by (auto simp: Incoming_takeback_def split: if_splits)
  from a show "Winner game = []"
    by (auto simp: Incoming_takeback_def split: if_splits)
qed

lemma movedGame_made:
  "Incoming_move startGame ''alice'' ''Nf3'' False ([], []) 150 151 = Some (movedGame, Moved)"
  by code_simp

theorem takeback_restores_last_board_witness:
  "Incoming_takeback movedGame ''alice'' False =
     Some (movedGame\<lparr>Board := Normalize StartingBoard, PlayingWhite := True\<rparr>, TakesBack ''Nf3'') \<and>
   Moves (movedGame\<lparr>Board := Normalize StartingBoard, PlayingWhite := True\<rparr>) = [''Nf3''] \<and>
   Previous (movedGame\<lparr>Board := Normalize StartingBoard, PlayingWhite := True\<rparr>) = [Normalize StartingBoard] \<and>
   WhiteElapsed (movedGame\<lparr>Board := Normalize StartingBoard, PlayingWhite := True\<rparr>) = 50 \<and>
   Allowed movedGame"
  using takeback_restores_last_board[of movedGame "''alice''" False
      "movedGame\<lparr>Board := Normalize StartingBoard, PlayingWhite := True\<rparr>" "''Nf3''"]
  by (simp add: movedGame_def Incoming_takeback_def lastOf_def)

text \<open>
  The returns at the head of \<^verbatim>\<open>Incoming\<close>: nothing is taken back for the bot's own
  messages, nor in a channel where chess is not allowed (unless the message is
  exempt); the player on move, and a user who plays neither side, are refused. In
  each case the game is as before. With chess allowed, no winner and histories that
  are not empty, the take-back of the player who is not on move is made.
\<close>

lemma takeback_ignored:
  "user = ''chessbot3000'' \<or> (\<not> Allowed game \<and> \<not> exempt) \<Longrightarrow>
   Incoming_takeback game user exempt = Some (game, Silent)"
  by (auto simp: Incoming_takeback_def)

lemma takeback_unchanged:
  "Incoming_takeback game user exempt = Some (g', r) \<Longrightarrow> (\<And>m. r \<noteq> TakesBack m) \<Longrightarrow> g' = game"
  by (auto simp: Incoming_takeback_def Let_def split: if_splits Option.bind_splits)

lemma takeback_made:
  "user \<noteq> ''chessbot3000'' \<Longrightarrow> Allowed game \<or> exempt \<Longrightarrow> Winner game = [] \<Longrightarrow>
   Previous game \<noteq> [] \<Longrightarrow> Moves game \<noteq> [] \<Longrightarrow>
   (user = White game \<and> \<not> PlayingWhite game) \<or> (user = Black game \<and> PlayingWhite game) \<Longrightarrow>
   Incoming_takeback game user exempt =
     Some (game\<lparr>Board := last (Previous game), PlayingWhite := \<not> PlayingWhite game\<rparr>,
           TakesBack (last (Moves game)))"
  by (auto simp: Incoming_takeback_def Let_def lastOf_def)

lemma takeback_not_allowed_example:
  "Incoming_takeback (movedGame\<lparr>Allowed := False\<rparr>) ''alice'' False =
     Some (movedGame\<lparr>Allowed := False\<rparr>, Silent)"
  by (simp add: Incoming_takeback_def movedGame_def)

section \<open>Pawn moves\<close>

lemmas validMoves_eval = validMoves_def coordsFromIndex_def signed_divide_int_def
  signed_modulo_int_def byteAt_def validMoves_P_def validMoves_p_def yepIf_def andThen_def
  orElse_def emptyAt_def opponentAt_def cellIs_def indexFromCoords_def

text \<open>
  C4 fails on the code. On \<open>jumpBoard\<close> the black pawn of A7 stands on its home rank,
  A6 holds a white knight and A5 is empty; \<open>validMoves\<close> lists A5, two squares ahead,
  as its only destination. The double step tests the cell two ahead and not the cell
  between.
\<close>

theorem pawn_double_step_over_piece:
  "PieceAt jumpBoard ''A7'' = Some (''P'', None) \<and> PieceAt jumpBoard ''A6'' = Some (''n'', None) \<and>
   PieceAt jumpBoard ''A5'' = Some (''_'', None) \<and>
   Position jumpBoard ''A7'' = Some (8, None) \<and>
   validMoves jumpBoard 8 = Some [Coord 5 0]"
  by (simp add: jumpBoard_def PieceAt_def Position_Cons2 toUpperByte_def validMoves_eval)

text \<open>
  C10. On \<open>captureBoard\<close> the black pawn of E4 (index 36) is the only black pawn that
  can move to D3, yet \<^verbatim>\<open>Pxd3\<close> for black is refused as ambiguous: \<open>validMoves\<close> lists
  D3 twice for it, once for the white queen on D3 and once for the white pawn beside
  it on D4, and the second occurrence is taken for a second piece.
\<close>

theorem single_capture_ambiguous:
  "length captureBoard = 64 \<and>
   filter (reaches captureBoard (Coord 3 3)) (All captureBoard CHR ''P'') = [36] \<and>
   validMoves captureBoard 36 = Some [Coord 3 4, Coord 3 3, Coord 3 3] \<and>
   Algebraic captureBoard ''Pxd3'' False = Some ([], [], Some AmbiguousMove)"
proof -
  have a: "All captureBoard CHR ''P'' = [8, 9, 10, 11, 13, 14, 15, 36]"
    by (simp add: All_def captureBoard_def upt_rec)
  have "filter (reaches captureBoard (Coord 3 3)) (All captureBoard CHR ''P'') = [36]"
    unfolding a by (simp add: reaches_def captureBoard_def validMoves_eval)
  moreover have "validMoves captureBoard 36 = Some [Coord 3 4, Coord 3 3, Coord 3 3]"
    by (simp add: captureBoard_def validMoves_eval)
  moreover have "Algebraic captureBoard ''Pxd3'' False = Some ([], [], Some AmbiguousMove)"
    by code_simp
  ultimately show ?thesis by (simp add: captureBoard_def)
qed

section \<open>Move generation never panics on a board of 64 cells\<close>

lemma bind_total: "m \<noteq> None \<Longrightarrow> (\<And>x. f x \<noteq> None) \<Longrightarrow> (m \<bind> f) \<noteq> None"
  by (cases m) auto

lemma byteAt_total: "length board = 64 \<Longrightarrow> inBoard r c \<Longrightarrow> byteAt board (indexFromCoords r c) \<noteq> None"
  by (auto simp: byteAt_def indexFromCoords_def inBoard_def)

lemma emptyAt_total: "length board = 64 \<Longrightarrow> inBoard r c \<Longrightarrow> emptyAt board r c \<noteq> None"
  unfolding emptyAt_def by (intro bind_total byteAt_total) auto

lemma cellIs_total: "length board = 64 \<Longrightarrow> inBoard r c \<Longrightarrow> cellIs board r c x \<noteq> None"
  unfolding cellIs_def by (intro bind_total byteAt_total) auto

lemma opponentAt_total: "length board = 64 \<Longrightarrow> inBoard r c \<Longrightarrow> opponentAt board piece r c \<noteq> None"
  unfolding opponentAt_def by (intro bind_total byteAt_total emptyAt_total) auto

lemma yepIf_total: "cond \<noteq> None \<Longrightarrow> yepIf cond rc valid \<noteq> None"
  unfolding yepIf_def by (intro bind_total) auto

lemma andThen_total: "(p \<Longrightarrow> q \<noteq> None) \<Longrightarrow> andThen p q \<noteq> None"
  by (auto simp: andThen_def)

lemma orElse_total: "p \<noteq> None \<Longrightarrow> q \<noteq> None \<Longrightarrow> orElse p q \<noteq> None"
  unfolding orElse_def by (intro bind_total) auto

lemma yepIfFree_total:
  "length board = 64 \<Longrightarrow> (bounds \<Longrightarrow> inBoard r c) \<Longrightarrow> yepIfFree board piece bounds r c valid \<noteq> None"
  unfolding yepIfFree_def
  by (intro yepIf_total andThen_total orElse_total emptyAt_total opponentAt_total) auto

lemma cruise_total: "length board = 64 \<Longrightarrow> inBoard r c \<Longrightarrow> cruise board piece valid r c \<noteq> None"
proof -
  assume a: "length board = 64" "inBoard r c"
  from emptyAt_total[OF a] obtain e where e: "emptyAt board r c = Some e" by auto
  from opponentAt_total[OF a, of piece] obtain opp where
    "opponentAt board piece r c = Some opp" by auto
  with e show ?thesis by (auto simp: cruise_def)
qed

lemma cruiseLoop_total:
  "length board = 64 \<Longrightarrow> rayInv dr dc tr tc \<Longrightarrow> cruiseLoop board piece dr dc tr tc valid \<noteq> None"
proof (induction board piece dr dc tr tc valid rule: cruiseLoop.induct)
  case (1 board piece dr dc tr tc valid)
  show ?case
  proof (cases "rayGuard dr dc tr tc")
    case False
    then show ?thesis by (subst cruiseLoop.simps) simp
  next
    case True
    with "1.prems" have ib: "inBoard tr tc"
      by (auto simp: rayGuard_def rayInv_def inBoard_def split: if_splits)
    from True "1.prems" have inv: "rayInv dr dc (tr + dr) (tc + dc)"
      by (auto simp: rayGuard_def rayInv_def split: if_splits)
    from cruise_total[OF "1.prems"(1) ib, of piece valid]
    obtain more valid' where c: "cruise board piece valid tr tc = Some (more, valid')" by auto
    show ?thesis
    proof (cases more)
      case False
      with True c show ?thesis by (subst cruiseLoop.simps) simp
    next
      case m: True
      from "1.IH"[OF True c refl m "1.prems"(1) inv] True c m
      show ?thesis by (subst cruiseLoop.simps) simp
    qed
  qed
qed

lemma coordsFromIndex_nonneg:
  "0 \<le> p \<Longrightarrow> coordsFromIndex p = (8 - p div 8, p mod 8)"
  by (simp add: coordsFromIndex_def signed_divide_int_def signed_modulo_int_def sgn_if)

lemma coordsFromIndex_inBoard:
  assumes "0 \<le> p" "p < 64"
  shows "inBoard (fst (coordsFromIndex p)) (snd (coordsFromIndex p))"
  using assms by (simp add: coordsFromIndex_nonneg inBoard_def) arith

lemma coordsFromIndex_indexFromCoords:
  assumes "inBoard r c"
  shows "coordsFromIndex (indexFromCoords r c) = (r, c)"
proof -
  have e: "indexFromCoords r c = c + 8 * (8 - r)" by (simp add: indexFromCoords_def)
  from assms have "0 \<le> indexFromCoords r c" by (simp add: indexFromCoords_def inBoard_def)
  then have "coordsFromIndex (indexFromCoords r c) = (8 - (c + 8 * (8 - r)) div 8, (c + 8 * (8 - r)) mod 8)"
    by (simp add: coordsFromIndex_nonneg e)
  also have "\<dots> = (r, c)" using assms unfolding inBoard_def by (simp, presburger)
  finally show ?thesis .
qed

lemma validMoves_P_total:
  assumes "length board = 64" "inBoard r c"
  shows "validMoves_P board piece r c \<noteq> None"
proof (cases "r = 1")
  case True
  then show ?thesis by (simp add: validMoves_P_def)
next
  case False
  have "(do {
        v \<leftarrow> yepIf (emptyAt board (r - 1) c) (Coord (r - 1) c) [];
        v \<leftarrow> yepIf (andThen (c \<noteq> 0) (opponentAt board piece (r - 1) (c - 1)))
               (Coord (r - 1) (c - 1)) v;
        v \<leftarrow> yepIf (andThen (c \<noteq> 7) (opponentAt board piece (r - 1) (c + 1)))
               (Coord (r - 1) (c + 1)) v;
        v \<leftarrow> yepIf (andThen (r = 7) (emptyAt board (r - 2) c)) (Coord (r - 2) c) v;
        v \<leftarrow> yepIf (andThen (r = 4 \<and> c \<noteq> 0) (cellIs board r (c - 1) CHR ''p''))
               (Coord (r - 1) (c - 1)) v;
        yepIf (andThen (r = 4 \<and> c \<noteq> 7) (cellIs board r (c + 1) CHR ''p''))
               (Coord (r - 1) (c + 1)) v
      }) \<noteq> None"
    using assms False
    by (intro bind_total yepIf_total andThen_total emptyAt_total opponentAt_total cellIs_total)
       (auto simp: inBoard_def)
  with False show ?thesis by (simp add: validMoves_P_def)
qed

lemma validMoves_p_total:
  assumes "length board = 64" "inBoard r c"
  shows "validMoves_p board piece r c \<noteq> None"
proof (cases "r = 8")
  case True
  then show ?thesis by (simp add: validMoves_p_def)
next
  case False
  have "(do {
        v \<leftarrow> yepIf (emptyAt board (r + 1) c) (Coord (r + 1) c) [];
        v \<leftarrow> yepIf (andThen (c \<noteq> 0) (opponentAt board piece (r + 1) (c - 1)))
               (Coord (r + 1) (c - 1)) v;
        v \<leftarrow> yepIf (andThen (c \<noteq> 7) (opponentAt board piece (r + 1) (c + 1)))
               (Coord (r + 1) (c + 1)) v;
        v \<leftarrow> yepIf (andThen (r = 2) (emptyAt board (r + 2) c)) (Coord (r + 2) c) v;
        v \<leftarrow> yepIf (andThen (r = 5 \<and> c \<noteq> 0) (cellIs board r (c - 1) CHR ''P''))
               (Coord (r + 1) (c - 1)) v;
        yepIf (andThen (r = 5 \<and> c \<noteq> 7) (cellIs board r (c + 1) CHR ''P''))
               (Coord (r + 1) (c + 1)) v
      }) \<noteq> None"
    using assms False
    by (intro bind_total yepIf_total andThen_total emptyAt_total opponentAt_total cellIs_total)
       (auto simp: inBoard_def)
  with False show ?thesis by (simp add: validMoves_p_def)
qed

lemma validMoves_R_total:
  "length board = 64 \<Longrightarrow> inBoard r c \<Longrightarrow> validMoves_R board piece r c valid \<noteq> None"
  unfolding validMoves_R_def
  by (intro bind_total cruiseLoop_total) (auto simp: inBoard_def rayInv_def)

lemma validMoves_B_total:
  "length board = 64 \<Longrightarrow> inBoard r c \<Longrightarrow> validMoves_B board piece r c valid \<noteq> None"
  unfolding validMoves_B_def
  by (intro bind_total cruiseLoop_total) (auto simp: inBoard_def rayInv_def)

lemma validMoves_N_total:
  "length board = 64 \<Longrightarrow> inBoard r c \<Longrightarrow> validMoves_N board piece r c \<noteq> None"
  unfolding validMoves_N_def
  by (intro bind_total yepIfFree_total) (auto simp: inBoard_def)

lemma validMoves_K_total:
  "length board = 64 \<Longrightarrow> inBoard r c \<Longrightarrow> validMoves_K board piece r c \<noteq> None"
  unfolding validMoves_K_def
  by (intro bind_total yepIfFree_total) (auto simp: inBoard_def)

lemma validMoves_Q_total:
  "length board = 64 \<Longrightarrow> inBoard r c \<Longrightarrow>
   (validMoves_R board piece r c [] \<bind> validMoves_B board piece r c) \<noteq> None"
  by (intro bind_total validMoves_R_total validMoves_B_total)

lemma validMoves_total:
  assumes "length board = 64" "0 \<le> p" "p < 64"
  shows "validMoves board p \<noteq> None"
proof -
  obtain r c where rc: "coordsFromIndex p = (r, c)" by (cases "coordsFromIndex p")
  with coordsFromIndex_inBoard[OF assms(2,3)] have ib: "inBoard r c" by simp
  from assms have b: "byteAt board p = Some (board ! nat p)" by (simp add: byteAt_def)
  note t = validMoves_P_total[OF assms(1) ib] validMoves_p_total[OF assms(1) ib]
      validMoves_R_total[OF assms(1) ib] validMoves_B_total[OF assms(1) ib]
      validMoves_N_total[OF assms(1) ib] validMoves_K_total[OF assms(1) ib]
      validMoves_Q_total[OF assms(1) ib]
  show ?thesis
    using t unfolding validMoves_def rc b by auto
qed

section \<open>The notation pattern\<close>

lemma isFile_iff: "isFile c \<longleftrightarrow> c \<in> set ''abcdefgh''"
  unfolding lower_file_iff by (simp add: isFile_def)

lemma isRank_iff: "isRank c \<longleftrightarrow> c \<in> set ''12345678''"
  unfolding rank_iff by (simp add: isRank_def)

lemma isFile_not: "isFile c \<Longrightarrow> \<not> isRank c \<and> \<not> isX c"
  by (auto simp: isFile_def isRank_def isX_def)

lemma isRank_not: "isRank c \<Longrightarrow> \<not> isFile c \<and> \<not> isX c"
  by (auto simp: isFile_def isRank_def isX_def)

lemma x_not: "\<not> isRank CHR ''x''" "\<not> isFile CHR ''x''"
  by (simp_all add: isRank_def isFile_def)

lemma rxDst_simps:
  "rxDst [] = None" "rxDst [c] = None"
  "rxDst (f # r # t) = (if isFile f \<and> isRank r then Some [f, r] else None)"
  by (simp_all add: rxDst_def)

lemma rxOpt_Nil: "rxOpt cls rest [] = map_option (Pair []) (rest [])"
  by (simp add: rxOpt_def)

lemma rxOpt_Cons:
  "rxOpt cls rest (c # t) =
     (if cls c then (case rest t of Some a \<Rightarrow> Some ([c], a) | None \<Rightarrow> map_option (Pair []) (rest (c # t)))
      else map_option (Pair []) (rest (c # t)))"
  by (simp add: rxOpt_def split: option.splits)

lemma rxAt_notationOf:
  assumes "wellFormed L fo ro F R"
  shows "rxAt (notationOf L fo ro cap F R) = Some ([L], opt fo, opt ro, if cap then ''x'' else [], [F, R])"
proof -
  from assms have L: "isPieceLetter L" and F: "isFile F" and R: "isRank R"
    by (simp_all add: wellFormed_def isPieceLetter_def isFile_iff isRank_iff)
  note n = isFile_not[OF F] isRank_not[OF R]
  show ?thesis
  proof (cases fo)
    case None
    note fo = this
    show ?thesis
    proof (cases ro)
      case None
      with fo L F R n show ?thesis
        by (simp add: rxAt_def notationOf_def opt_def rxOpt_Cons rxOpt_Nil rxDst_simps isX_def x_not)
    next
      case (Some r)
      with assms have r: "isRank r" by (simp add: wellFormed_def isRank_iff)
      from Some fo L F R n r isRank_not[OF r] show ?thesis
        by (simp add: rxAt_def notationOf_def opt_def rxOpt_Cons rxOpt_Nil rxDst_simps isX_def x_not)
    qed
  next
    case (Some f)
    note fo = this
    with assms have f: "isFile f" by (simp add: wellFormed_def isFile_iff)
    show ?thesis
    proof (cases ro)
      case None
      with fo L F R n f isFile_not[OF f] show ?thesis
        by (simp add: rxAt_def notationOf_def opt_def rxOpt_Cons rxOpt_Nil rxDst_simps isX_def x_not)
    next
      case (Some r)
      with assms have r: "isRank r" by (simp add: wellFormed_def isRank_iff)
      from Some fo L F R n f isFile_not[OF f] r isRank_not[OF r] show ?thesis
        by (simp add: rxAt_def notationOf_def opt_def rxOpt_Cons rxOpt_Nil rxDst_simps isX_def x_not)
    qed
  qed
qed

lemma FindStringSubmatch_notationOf:
  assumes "wellFormed L fo ro F R"
  shows "FindStringSubmatch (notationOf L fo ro cap F R) =
     Some ([L], opt fo, opt ro, if cap then ''x'' else [], [F, R])"
proof -
  have "notationOf L fo ro cap F R = L # tl (notationOf L fo ro cap F R)"
    by (simp add: notationOf_def)
  then have "FindStringSubmatch (notationOf L fo ro cap F R) =
     (case rxAt (notationOf L fo ro cap F R) of Some m \<Rightarrow> Some m
      | None \<Rightarrow> FindStringSubmatch (tl (notationOf L fo ro cap F R)))"
    by (metis FindStringSubmatch.simps(2))
  then show ?thesis by (simp add: rxAt_notationOf[OF assms])
qed

lemma rxOpt_pass: "rest s \<noteq> None \<Longrightarrow> rxOpt cls rest s \<noteq> None"
  by (cases s) (auto simp: rxOpt_Nil rxOpt_Cons split: option.splits)

lemma rxOpt_take: "cls c \<Longrightarrow> rest t \<noteq> None \<Longrightarrow> rxOpt cls rest (c # t) \<noteq> None"
  by (auto simp: rxOpt_Cons split: option.splits)

lemma rxAt_complete:
  assumes "wellFormed L fo ro F R"
  shows "rxAt (notationOf L fo ro cap F R @ post) \<noteq> None"
proof -
  from assms have L: "isPieceLetter L" and F: "isFile F" and R: "isRank R"
    by (simp_all add: wellFormed_def isPieceLetter_def isFile_iff isRank_iff)
  have d: "rxDst (F # R # post) \<noteq> None"
    using F R by (simp add: rxDst_simps)
  have x: "rxOpt isX rxDst ((if cap then ''x'' else []) @ F # R # post) \<noteq> None"
  proof (cases cap)
    case True
    then show ?thesis using rxOpt_take[where cls = isX and c = "CHR ''x''" and rest = rxDst, OF _ d] by (simp add: isX_def)
  next
    case False
    then show ?thesis using rxOpt_pass[where rest = rxDst and cls = isX, OF d] by simp
  qed
  have r: "rxOpt isRank (rxOpt isX rxDst) (opt ro @ (if cap then ''x'' else []) @ F # R # post) \<noteq> None"
  proof (cases ro)
    case None
    then show ?thesis using rxOpt_pass[where rest = "rxOpt isX rxDst" and cls = isRank, OF x] by (simp add: opt_def)
  next
    case (Some c)
    with assms have "isRank c" by (simp add: wellFormed_def isRank_iff)
    from rxOpt_take[where cls = isRank and rest = "rxOpt isX rxDst", OF this x] Some show ?thesis by (simp add: opt_def)
  qed
  have f: "rxOpt isFile (rxOpt isRank (rxOpt isX rxDst))
             (opt fo @ opt ro @ (if cap then ''x'' else []) @ F # R # post) \<noteq> None"
  proof (cases fo)
    case None
    then show ?thesis using rxOpt_pass[where rest = "rxOpt isRank (rxOpt isX rxDst)" and cls = isFile, OF r] by (simp add: opt_def)
  next
    case (Some c)
    with assms have "isFile c" by (simp add: wellFormed_def isFile_iff)
    from rxOpt_take[where cls = isFile and rest = "rxOpt isRank (rxOpt isX rxDst)", OF this r] Some show ?thesis by (simp add: opt_def)
  qed
  from f L show ?thesis by (auto simp: rxAt_def notationOf_def)
qed

lemma rxOpt_SomeD:
  "rxOpt cls rest s = Some (m, a) \<Longrightarrow>
     (\<exists>c t. s = c # t \<and> cls c \<and> m = [c] \<and> rest t = Some a) \<or> (m = [] \<and> rest s = Some a)"
  by (cases s) (auto simp: rxOpt_Nil rxOpt_Cons split: option.splits if_splits)

lemma rxDst_SomeD:
  "rxDst s = Some d \<Longrightarrow> \<exists>f r t. s = f # r # t \<and> isFile f \<and> isRank r \<and> d = [f, r]"
  by (auto simp: rxDst_def split: list.splits if_splits)

lemma rxAt_sound:
  assumes "rxAt s = Some m"
  shows "\<exists>L fo ro cap F R post. wellFormed L fo ro F R \<and> s = notationOf L fo ro cap F R @ post"
proof -
  from assms obtain L t m' where s: "s = L # t" and L: "isPieceLetter L"
    and t: "rxOpt isFile (rxOpt isRank (rxOpt isX rxDst)) t = Some m'"
    by (auto simp: rxAt_def split: list.splits if_splits)
  obtain m2 a2 where m': "m' = (m2, a2)" by (cases m')
  from rxOpt_SomeD[OF t[unfolded m']]
  obtain fo t1 where t1: "t = opt fo @ t1" and fo: "case fo of None \<Rightarrow> True | Some f \<Rightarrow> isFile f"
    and k2: "rxOpt isRank (rxOpt isX rxDst) t1 = Some a2"
  proof (elim disjE exE conjE)
    fix c t' assume "t = c # t'" "isFile c" "rxOpt isRank (rxOpt isX rxDst) t' = Some a2"
    then show thesis using that[of "Some c" t'] by (simp add: opt_def)
  next
    assume "rxOpt isRank (rxOpt isX rxDst) t = Some a2"
    then show thesis using that[of None t] by (simp add: opt_def)
  qed
  obtain m3 a3 where a2: "a2 = (m3, a3)" by (cases a2)
  from rxOpt_SomeD[OF k2[unfolded a2]]
  obtain ro t2 where t2: "t1 = opt ro @ t2" and ro: "case ro of None \<Rightarrow> True | Some r \<Rightarrow> isRank r"
    and k3: "rxOpt isX rxDst t2 = Some a3"
  proof (elim disjE exE conjE)
    fix c t' assume "t1 = c # t'" "isRank c" "rxOpt isX rxDst t' = Some a3"
    then show thesis using that[of "Some c" t'] by (simp add: opt_def)
  next
    assume "rxOpt isX rxDst t1 = Some a3"
    then show thesis using that[of None t1] by (simp add: opt_def)
  qed
  obtain m4 a4 where a3: "a3 = (m4, a4)" by (cases a3)
  from rxOpt_SomeD[OF k3[unfolded a3]]
  obtain cap t3 where t3: "t2 = (if cap then ''x'' else []) @ t3" and k4: "rxDst t3 = Some a4"
  proof (elim disjE exE conjE)
    fix c t' assume "t2 = c # t'" "isX c" "rxDst t' = Some a4"
    then show thesis using that[of True t'] by (simp add: isX_def)
  next
    assume "rxDst t2 = Some a4"
    then show thesis using that[of False t2] by simp
  qed
  from rxDst_SomeD[OF k4] obtain F R post where
    d: "t3 = F # R # post" "isFile F" "isRank R" by auto
  have "wellFormed L fo ro F R"
    using L fo ro d(2,3)
    by (auto simp: wellFormed_def isPieceLetter_def isFile_iff isRank_iff split: option.splits)
  moreover have "s = notationOf L fo ro cap F R @ post"
    by (simp add: s t1 t2 t3 d(1) notationOf_def)
  ultimately show ?thesis by blast
qed

lemma FindStringSubmatch_complete:
  "rxAt t \<noteq> None \<Longrightarrow> FindStringSubmatch (pre @ t) \<noteq> None"
proof (induction pre)
  case Nil
  then show ?case by (cases t) auto
next
  case (Cons a pre)
  then show ?case by (auto split: option.splits)
qed

lemma FindStringSubmatch_sound:
  "FindStringSubmatch s = Some m \<Longrightarrow> \<exists>pre t. s = pre @ t \<and> rxAt t = Some m"
proof (induction s)
  case Nil
  then show ?case by simp
next
  case (Cons a s)
  show ?case
  proof (cases "rxAt (a # s)")
    case None
    with Cons.prems have "FindStringSubmatch s = Some m" by simp
    from Cons.IH[OF this] obtain pre t where "s = pre @ t" "rxAt t = Some m" by blast
    then have "a # s = (a # pre) @ t \<and> rxAt t = Some m" by simp
    then show ?thesis by blast
  next
    case (Some m')
    with Cons.prems have "m' = m" by simp
    with Some have "a # s = [] @ (a # s) \<and> rxAt (a # s) = Some m" by simp
    then show ?thesis by blast
  qed
qed

lemma FindStringSubmatch_None_iff:
  "FindStringSubmatch s = None \<longleftrightarrow>
     \<not> (\<exists>pre L fo ro cap F R post.
           wellFormed L fo ro F R \<and> s = pre @ notationOf L fo ro cap F R @ post)"
proof
  assume n: "FindStringSubmatch s = None"
  show "\<not> (\<exists>pre L fo ro cap F R post.
           wellFormed L fo ro F R \<and> s = pre @ notationOf L fo ro cap F R @ post)"
  proof
    assume "\<exists>pre L fo ro cap F R post.
           wellFormed L fo ro F R \<and> s = pre @ notationOf L fo ro cap F R @ post"
    then obtain pre L fo ro cap F R post where
      w: "wellFormed L fo ro F R" and s: "s = pre @ notationOf L fo ro cap F R @ post" by blast
    from FindStringSubmatch_complete[OF rxAt_complete[OF w], of pre cap post] n s
    show False by simp
  qed
next
  assume c: "\<not> (\<exists>pre L fo ro cap F R post.
           wellFormed L fo ro F R \<and> s = pre @ notationOf L fo ro cap F R @ post)"
  show "FindStringSubmatch s = None"
  proof (rule ccontr)
    assume "FindStringSubmatch s \<noteq> None"
    then obtain m where "FindStringSubmatch s = Some m" by auto
    from FindStringSubmatch_sound[OF this] obtain pre t where
      s: "s = pre @ t" and "rxAt t = Some m" by blast
    from rxAt_sound[OF this(2)] s c show False by blast
  qed
qed

section \<open>Reading a notation\<close>

lemma hit_iff: "row mv = dr \<and> col mv = dc \<longleftrightarrow> mv = Coord dr dc"
  by (cases mv) auto

lemma Sprintf_c_not_Nil: "Sprintf_c n \<noteq> []"
  by (simp add: Sprintf_c_def)

lemma matchMoves_miss:
  "Coord dr dc \<notin> set mvs \<Longrightarrow> matchMoves p dr dc mvs src = Inr src"
  by (induction mvs) (auto simp: hit_iff)

lemma matchMoves_hit:
  "Coord dr dc \<in> set mvs \<Longrightarrow> src \<noteq> [] \<Longrightarrow> matchMoves p dr dc mvs src = Inl AmbiguousMove"
  by (induction mvs) (auto simp: hit_iff)

lemma matchMoves_fresh:
  "Coord dr dc \<in> set mvs \<Longrightarrow>
   matchMoves p dr dc mvs [] = Inl AmbiguousMove \<or>
   (\<exists>s. s \<noteq> [] \<and> matchMoves p dr dc mvs [] = Inr s)"
proof (induction mvs)
  case Nil
  then show ?case by simp
next
  case (Cons mv mvs)
  show ?case
  proof (cases "mv = Coord dr dc")
    case False
    with Cons show ?thesis by (auto simp: hit_iff)
  next
    case True
    obtain srow scol where sc: "coordsFromIndex p = (srow, scol)" by (cases "coordsFromIndex p")
    let ?s = "Sprintf_c (ord CHR ''A'' + scol) @ Sprintf_d srow"
    have ne: "?s \<noteq> []" by (simp add: Sprintf_c_not_Nil)
    have e: "matchMoves p dr dc (mv # mvs) [] = matchMoves p dr dc mvs ?s"
      using True sc by simp
    show ?thesis
    proof (cases "Coord dr dc \<in> set mvs")
      case True
      from matchMoves_hit[OF this ne] e show ?thesis by simp
    next
      case False
      from matchMoves_miss[OF this] e ne show ?thesis by simp
    qed
  qed
qed

lemma reaches_Some: "validMoves board p = Some mvs \<Longrightarrow> reaches board dst p = (dst \<in> set mvs)"
  by (simp add: reaches_def)

lemma matchCands_none:
  "\<forall>p\<in>set ps. validMoves board p \<noteq> None \<Longrightarrow>
   filter (reaches board (Coord dr dc)) ps = [] \<Longrightarrow>
   matchCands board dr dc ps src = Some (Inr src)"
proof (induction ps)
  case Nil
  then show ?case by simp
next
  case (Cons p ps)
  from Cons.prems(1) obtain mvs where v: "validMoves board p = Some mvs" by auto
  from Cons.prems(2) v have "Coord dr dc \<notin> set mvs"
    by (auto simp: reaches_Some split: if_splits)
  from matchMoves_miss[OF this] v Cons show ?case by (auto split: if_splits)
qed

lemma matchCands_hit:
  "\<forall>p\<in>set ps. validMoves board p \<noteq> None \<Longrightarrow> src \<noteq> [] \<Longrightarrow>
   filter (reaches board (Coord dr dc)) ps \<noteq> [] \<Longrightarrow>
   matchCands board dr dc ps src = Some (Inl AmbiguousMove)"
proof (induction ps)
  case Nil
  then show ?case by simp
next
  case (Cons p ps)
  from Cons.prems(1) obtain mvs where v: "validMoves board p = Some mvs" by auto
  show ?case
  proof (cases "Coord dr dc \<in> set mvs")
    case True
    from matchMoves_hit[OF this Cons.prems(2)] v show ?thesis by simp
  next
    case False
    with Cons.prems(3) v have "filter (reaches board (Coord dr dc)) ps \<noteq> []"
      by (auto simp: reaches_Some split: if_splits)
    with Cons matchMoves_miss[OF False] v show ?thesis by auto
  qed
qed

lemma matchCands_two:
  "\<forall>p\<in>set ps. validMoves board p \<noteq> None \<Longrightarrow>
   1 < length (filter (reaches board (Coord dr dc)) ps) \<Longrightarrow>
   matchCands board dr dc ps [] = Some (Inl AmbiguousMove)"
proof (induction ps)
  case Nil
  then show ?case by simp
next
  case (Cons p ps)
  from Cons.prems(1) obtain mvs where v: "validMoves board p = Some mvs" by auto
  from Cons.prems(1) have t: "\<forall>p\<in>set ps. validMoves board p \<noteq> None" by simp
  show ?case
  proof (cases "Coord dr dc \<in> set mvs")
    case True
    with Cons.prems(2) v have more: "filter (reaches board (Coord dr dc)) ps \<noteq> []"
      by (auto simp: reaches_Some)
    from matchMoves_fresh[OF True, of p] show ?thesis
    proof
      assume "matchMoves p dr dc mvs [] = Inl AmbiguousMove"
      with v show ?thesis by simp
    next
      assume "\<exists>s. s \<noteq> [] \<and> matchMoves p dr dc mvs [] = Inr s"
      then obtain s where s: "s \<noteq> []" "matchMoves p dr dc mvs [] = Inr s" by blast
      from matchCands_hit[OF t s(1) more] s(2) v show ?thesis by simp
    qed
  next
    case False
    with Cons.prems(2) v have "1 < length (filter (reaches board (Coord dr dc)) ps)"
      by (auto simp: reaches_Some)
    from Cons.IH[OF t this] matchMoves_miss[OF False] v show ?thesis by simp
  qed
qed

lemma All_range: "p \<in> set (All board piece) \<Longrightarrow> 0 \<le> p \<and> p < int (length board)"
  by (auto simp: All_def)

lemma notationOf_not_castle:
  "wellFormed L fo ro F R \<Longrightarrow>
   notationOf L fo ro cap F R \<noteq> ''O-O'' \<and> notationOf L fo ro cap F R \<noteq> ''O-O-O''"
  by (auto simp: wellFormed_def notationOf_def)

lemma candidate_opt:
  assumes "wellFormed L fo ro F R"
  shows "candidate (opt fo) (opt ro) p =
     ((case fo of None \<Rightarrow> True | Some f \<Rightarrow> snd (coordsFromIndex p) = fileIndex f) \<and>
      (case ro of None \<Rightarrow> True | Some r \<Rightarrow> fst (coordsFromIndex p) = rankNumber r))"
proof -
  obtain r c where rc: "coordsFromIndex p = (r, c)" by (cases "coordsFromIndex p")
  have f: "(ord f - 97) mod 256 = fileIndex f" if "f \<in> set ''abcdefgh''" for f
    using that unfolding lower_file_iff by (simp add: fileIndex_def)
  have k: "(ord k - 48) mod 256 = rankNumber k" if "k \<in> set ''12345678''" for k
    using that unfolding rank_iff by (simp add: rankNumber_def)
  from assms have "case fo of None \<Rightarrow> True | Some f \<Rightarrow> f \<in> set ''abcdefgh''"
    and "case ro of None \<Rightarrow> True | Some r \<Rightarrow> r \<in> set ''12345678''"
    by (simp_all add: wellFormed_def)
  then show ?thesis
    by (cases fo; cases ro) (auto simp: candidate_def opt_def rc f k)
qed

lemma filter_candidate:
  "wellFormed L fo ro F R \<Longrightarrow>
   filter (candidate (opt fo) (opt ro)) (All board (pieceOf isWhite L)) = candidates board isWhite L fo ro"
  unfolding candidates_def by (rule filter_cong) (simp_all add: candidate_opt)

lemma Position_dst:
  assumes "F \<in> set ''abcdefgh''" "R \<in> set ''12345678''"
  shows "Position board [F, R] = Some (indexFromCoords (rankNumber R) (fileIndex F), None)"
    and "inBoard (rankNumber R) (fileIndex F)"
  using assms unfolding lower_file_iff rank_iff
  by (simp_all add: Position_Cons2 ord_toUpperByte indexFromCoords_def rankNumber_def fileIndex_def
      inBoard_def)

lemma Algebraic_notationOf:
  assumes "wellFormed L fo ro F R"
  shows "Algebraic board (notationOf L fo ro cap F R) isWhite =
     (case matchCands board (rankNumber R) (fileIndex F) (candidates board isWhite L fo ro) [] of
        None \<Rightarrow> None
      | Some (Inl e) \<Rightarrow> Some ([], [], Some e)
      | Some (Inr src) \<Rightarrow>
          if src = [] then Some ([], [], Some NoMatchingMove) else Some (src, [F, R], None))"
proof -
  from assms have FR: "F \<in> set ''abcdefgh''" "R \<in> set ''12345678''"
    by (simp_all add: wellFormed_def)
  note p = Position_dst(1)[OF FR, of board] Position_dst(2)[OF FR]
  have c: "coordsFromIndex (indexFromCoords (rankNumber R) (fileIndex F)) = (rankNumber R, fileIndex F)"
    by (rule coordsFromIndex_indexFromCoords[OF p(2)])
  have pc: "(if isWhite then char_of (ord L + 32) else L) = pieceOf isWhite L"
    by (simp add: pieceOf_def)
  show ?thesis
    using notationOf_not_castle[OF assms, of cap]
    by (simp add: Algebraic_def FindStringSubmatch_notationOf[OF assms] byteAt_def p(1) c pc
        filter_candidate[OF assms] split: option.splits sum.splits)
qed

lemma candidates_total:
  assumes "length board = 64"
  shows "\<forall>p\<in>set (candidates board isWhite L fo ro). validMoves board p \<noteq> None"
proof
  fix p assume "p \<in> set (candidates board isWhite L fo ro)"
  then have "p \<in> set (All board (pieceOf isWhite L))" by (simp add: candidates_def)
  from All_range[OF this] assms show "validMoves board p \<noteq> None"
    by (intro validMoves_total) auto
qed

lemma matchCands_error:
  "matchCands board dr dc ps src = Some (Inl e) \<Longrightarrow> e = AmbiguousMove"
proof (induction ps arbitrary: src)
  case Nil
  then show ?case by simp
next
  case (Cons p ps)
  have m: "matchMoves p dr dc mvs s = Inl e' \<Longrightarrow> e' = AmbiguousMove" for mvs s e'
    by (induction mvs arbitrary: s) (auto split: if_splits prod.splits)
  from Cons show ?case
    by (auto split: option.splits sum.splits dest: m)
qed

text \<open>
  C5, as the code has it. On a board of 64 cells and a well-formed notation,
  \<open>Algebraic\<close> returns the error \<open>NoMatchingMove\<close> when no candidate has the
  destination among its valid moves and \<open>AmbiguousMove\<close> when more than one has. For
  any input other than the two castling strings it returns \<open>InvalidNotation\<close> exactly
  when no part of the input is a well-formed notation: the pattern is not anchored,
  and text before and after a notation is ignored.
\<close>

theorem Algebraic_errors:
  assumes "length board = 64" and "wellFormed L fo ro F R"
  shows "(matching board isWhite L fo ro F R = [] \<longrightarrow>
            Algebraic board (notationOf L fo ro cap F R) isWhite = Some ([], [], Some NoMatchingMove)) \<and>
         (1 < length (matching board isWhite L fo ro F R) \<longrightarrow>
            Algebraic board (notationOf L fo ro cap F R) isWhite = Some ([], [], Some AmbiguousMove)) \<and>
         (s \<noteq> ''O-O'' \<and> s \<noteq> ''O-O-O'' \<longrightarrow>
            (Algebraic board s isWhite = Some ([], [], Some InvalidNotation) \<longleftrightarrow>
             \<not> (\<exists>pre L' fo' ro' cap' F' R' post.
                  wellFormed L' fo' ro' F' R' \<and> s = pre @ notationOf L' fo' ro' cap' F' R' @ post)))"
proof (intro conjI impI)
  assume "matching board isWhite L fo ro F R = []"
  from matchCands_none[OF candidates_total[OF assms(1)] this[unfolded matching_def], of "[]"]
  show "Algebraic board (notationOf L fo ro cap F R) isWhite = Some ([], [], Some NoMatchingMove)"
    by (simp add: Algebraic_notationOf[OF assms(2)])
next
  assume "1 < length (matching board isWhite L fo ro F R)"
  from matchCands_two[OF candidates_total[OF assms(1)] this[unfolded matching_def]]
  show "Algebraic board (notationOf L fo ro cap F R) isWhite = Some ([], [], Some AmbiguousMove)"
    by (simp add: Algebraic_notationOf[OF assms(2)])
next
  assume n: "s \<noteq> ''O-O'' \<and> s \<noteq> ''O-O-O''"
  have "Algebraic board s isWhite = Some ([], [], Some InvalidNotation) \<longleftrightarrow>
        FindStringSubmatch s = None"
    using n
    by (auto simp: Algebraic_def Let_def
        split: option.splits prod.splits sum.splits Option.bind_splits if_splits
        dest: matchCands_error)
  then show "Algebraic board s isWhite = Some ([], [], Some InvalidNotation) \<longleftrightarrow>
             \<not> (\<exists>pre L' fo' ro' cap' F' R' post.
                  wellFormed L' fo' ro' F' R' \<and> s = pre @ notationOf L' fo' ro' cap' F' R' @ post)"
    by (simp only: FindStringSubmatch_None_iff)
qed

theorem Algebraic_errors_witness:
  "Algebraic (Normalize StartingBoard) ''Nf4'' True = Some ([], [], Some NoMatchingMove) \<and>
   matching twoKnightsBoard True CHR ''N'' None None CHR ''e'' CHR ''2'' = [42, 62] \<and>
   PieceAt twoKnightsBoard ''E2'' = Some (''_'', None) \<and>
   Algebraic twoKnightsBoard ''Ne2'' True = Some ([], [], Some AmbiguousMove) \<and>
   Algebraic (Normalize StartingBoard) ''hello'' True = Some ([], [], Some InvalidNotation) \<and>
   \<not> (\<exists>pre L fo ro cap F R post.
        wellFormed L fo ro F R \<and> ''hello'' = pre @ notationOf L fo ro cap F R @ post)"
proof -
  have l1: "length (Normalize StartingBoard) = 64"
    by (simp add: Normalize_StartingBoard)
  have l2: "length twoKnightsBoard = 64"
    by (simp add: twoKnightsBoard_def)
  have w1: "wellFormed CHR ''N'' None None CHR ''f'' CHR ''4''"
    by (simp add: wellFormed_def)
  have w2: "wellFormed CHR ''N'' None None CHR ''e'' CHR ''2''"
    by (simp add: wellFormed_def)
  have m1: "matching (Normalize StartingBoard) True CHR ''N'' None None CHR ''f'' CHR ''4'' = []"
    by code_simp
  have m2: "matching twoKnightsBoard True CHR ''N'' None None CHR ''e'' CHR ''2'' = [42, 62]"
    by code_simp
  have h: "Algebraic (Normalize StartingBoard) ''hello'' True = Some ([], [], Some InvalidNotation)"
    by code_simp
  have e2: "PieceAt twoKnightsBoard ''E2'' = Some (''_'', None)"
    by (simp add: twoKnightsBoard_def PieceAt_def Position_Cons2 toUpperByte_def byteAt_def)
  from Algebraic_errors[OF l1 w1, of True False "''hello''"] m1 h
  have a: "Algebraic (Normalize StartingBoard) ''Nf4'' True = Some ([], [], Some NoMatchingMove)"
    and c: "\<not> (\<exists>pre L fo ro cap F R post.
        wellFormed L fo ro F R \<and> ''hello'' = pre @ notationOf L fo ro cap F R @ post)"
    by (simp_all add: notationOf_def opt_def)
  from Algebraic_errors[OF l2 w2, of True False "''hello''"] m2
  have b: "Algebraic twoKnightsBoard ''Ne2'' True = Some ([], [], Some AmbiguousMove)"
    by (simp add: notationOf_def opt_def)
  from a b c m2 h e2 show ?thesis by simp
qed

text \<open>
  C5 as stated fails on malformed input: \<^verbatim>\<open>zzNf3\<close> does not begin with a piece
  letter, so it is not a well-formed notation, and \<open>Algebraic\<close> reads the move Nf3 in
  it instead of returning \<open>InvalidNotation\<close>.
\<close>

theorem Algebraic_unanchored_counterexample:
  "hd ''zzNf3'' \<notin> set ''PBNRQK'' \<and>
   Algebraic (Normalize StartingBoard) ''zzNf3'' True = Some (''G1'', ''f3'', None)"
proof -
  have "Algebraic (Normalize StartingBoard) ''zzNf3'' True = Some (''G1'', ''f3'', None)"
    by code_simp
  then show ?thesis by simp
qed

section \<open>The round trip of the opening moves\<close>

lemma movesOn_StartingBoard:
  "movesOn (Normalize StartingBoard) =
  [(''B8'', ''C6''), (''B8'', ''A6''), (''G8'', ''H6''), (''G8'', ''F6''),
   (''A7'', ''A6''), (''A7'', ''A5''), (''B7'', ''B6''), (''B7'', ''B5''),
   (''C7'', ''C6''), (''C7'', ''C5''), (''D7'', ''D6''), (''D7'', ''D5''),
   (''E7'', ''E6''), (''E7'', ''E5''), (''F7'', ''F6''), (''F7'', ''F5''),
   (''G7'', ''G6''), (''G7'', ''G5''), (''H7'', ''H6''), (''H7'', ''H5''),
   (''A2'', ''A3''), (''A2'', ''A4''), (''B2'', ''B3''), (''B2'', ''B4''),
   (''C2'', ''C3''), (''C2'', ''C4''), (''D2'', ''D3''), (''D2'', ''D4''),
   (''E2'', ''E3''), (''E2'', ''E4''), (''F2'', ''F3''), (''F2'', ''F4''),
   (''G2'', ''G3''), (''G2'', ''G4''), (''H2'', ''H3''), (''H2'', ''H4''),
   (''B1'', ''C3''), (''B1'', ''A3''), (''G1'', ''H3''), (''G1'', ''F3'')]"
  by code_simp

lemma roundTrip_opening:
  "list_all (\<lambda>(src, dst). roundTrip (Normalize StartingBoard) src dst)
     (movesOn (Normalize StartingBoard))"
  unfolding movesOn_StartingBoard by code_simp

text \<open>
  C1, as the code has it. On the starting board the 40 pseudo-legal opening moves
  round-trip: the notation that \<open>CoordsToAlgebraic\<close> gives for \<open>(src, dst)\<close>, read by
  \<open>Algebraic\<close> for the side of the piece, returns \<open>src\<close> and the destination in lower
  case, as the notation writes it (the same square for \<open>Position\<close>). For G1 to F3
  the notation is \<^verbatim>\<open>Nf3\<close>, and \<^verbatim>\<open>Nf3\<close> for white returns G1 and f3.
\<close>

theorem opening_moves_round_trip:
  "(\<forall>(src, dst) \<in> set (movesOn (Normalize StartingBoard)).
       roundTrip (Normalize StartingBoard) src dst) \<and>
   length (movesOn (Normalize StartingBoard)) = 40 \<and>
   (''G1'', ''F3'') \<in> set (movesOn (Normalize StartingBoard)) \<and>
   CoordsToAlgebraic (Normalize StartingBoard) ''G1'' ''F3'' = Some (''Nf3'', None) \<and>
   Algebraic (Normalize StartingBoard) ''Nf3'' True = Some (''G1'', ''f3'', None) \<and>
   Position (Normalize StartingBoard) ''f3'' = Position (Normalize StartingBoard) ''F3''"
proof -
  have "\<forall>(src, dst) \<in> set (movesOn (Normalize StartingBoard)).
          roundTrip (Normalize StartingBoard) src dst"
    using roundTrip_opening by (simp add: list_all_iff)
  moreover have "length (movesOn (Normalize StartingBoard)) = 40"
    unfolding movesOn_StartingBoard by simp
  moreover have "(''G1'', ''F3'') \<in> set (movesOn (Normalize StartingBoard))"
    unfolding movesOn_StartingBoard by simp
  moreover have "CoordsToAlgebraic (Normalize StartingBoard) ''G1'' ''F3'' = Some (''Nf3'', None)"
    by code_simp
  moreover have "Algebraic (Normalize StartingBoard) ''Nf3'' True = Some (''G1'', ''f3'', None)"
    by code_simp
  moreover have "Position (Normalize StartingBoard) ''f3'' = Position (Normalize StartingBoard) ''F3''"
    by (simp add: Position_Cons2 toUpperByte_def)
  ultimately show ?thesis by blast
qed

theorem opening_moves_round_trip_witness:
  "(''E2'', ''E4'') \<in> set (movesOn (Normalize StartingBoard)) \<and>
   roundTrip (Normalize StartingBoard) ''E2'' ''E4'' \<and>
   roundTrip (Normalize StartingBoard) ''G1'' ''F3''"
proof -
  have m: "(''E2'', ''E4'') \<in> set (movesOn (Normalize StartingBoard))"
    unfolding movesOn_StartingBoard by simp
  from opening_moves_round_trip m
  have "roundTrip (Normalize StartingBoard) ''E2'' ''E4''" by blast
  moreover from opening_moves_round_trip
  have "roundTrip (Normalize StartingBoard) ''G1'' ''F3''" by blast
  ultimately show ?thesis using m by simp
qed

text \<open>
  C1 as stated fails: \<^verbatim>\<open>Algebraic("Nf3", true)\<close> on the starting board returns the
  destination as the notation writes it, \<^verbatim>\<open>f3\<close>, and not \<^verbatim>\<open>F3\<close>.
\<close>

theorem Algebraic_Nf3_counterexample:
  "Algebraic (Normalize StartingBoard) ''Nf3'' True = Some (''G1'', ''f3'', None) \<and>
   Algebraic (Normalize StartingBoard) ''Nf3'' True \<noteq> Some (''G1'', ''F3'', None)"
proof -
  have "Algebraic (Normalize StartingBoard) ''Nf3'' True = Some (''G1'', ''f3'', None)"
    by code_simp
  then show ?thesis by simp
qed

end
